theory Spec2Isabelle
  imports Complex_Main "HOL-Library.Char_ord" "HOL-Library.List_Lexorder" "HOL-Library.Multiset"
begin

section \<open>Python values and exceptions\<close>

text \<open>
  The exceptions that can leave the functions of \<^verbatim>\<open>app.py\<close>. \<open>HTTPError\<close>,
  \<open>Timeout\<close> and \<open>ConnectionError\<close> are the classes of \<^verbatim>\<open>requests\<close> (siblings
  under \<^verbatim>\<open>RequestException\<close>); the others are Python's and \<^verbatim>\<open>sqlite3\<close>'s.
\<close>

datatype exn =
    HTTPError nat
  | Timeout
  | ConnectionError
  | JSONDecodeError
  | ValueError string
  | TypeError
  | IntegrityError
  | OverflowError

text \<open>
  A cell of a numeric column as \<^verbatim>\<open>float(...)\<close> meets it. A finite double is modelled
  by the real number it denotes (so \<open>0.0\<close> and \<open>-0.0\<close> coincide, as they do under
  SQLite's numeric comparison); infinities are outside the model.
\<close>

datatype pyval = PyFloat real | PyNaN | PyNone

text \<open>\<^verbatim>\<open>float(x)\<close>: the identity on floats, \<^verbatim>\<open>TypeError\<close> on \<^verbatim>\<open>None\<close>.\<close>

fun py_float :: "pyval \<Rightarrow> exn + pyval" where
  "py_float PyNone = Inl TypeError"
| "py_float v = Inr v"

section \<open>Datetimes\<close>

text \<open>
  A UTC \<^verbatim>\<open>datetime\<close> / \<^verbatim>\<open>Timestamp\<close> with its civil fields, at second precision.
  The program formats every datetime with \<^verbatim>\<open>strftime("%Y-%m-%dT%H:%M:%SZ")\<close> before it
  stores or compares it, which drops the sub-second part; a reading of the clock is
  therefore taken to the whole second.
\<close>

record datetime =
  year :: nat
  month :: nat
  day :: nat
  hour :: nat
  minute :: nat
  second :: nat

definition is_leap :: "nat \<Rightarrow> bool" where
  "is_leap y \<longleftrightarrow> y mod 4 = 0 \<and> (y mod 100 \<noteq> 0 \<or> y mod 400 = 0)"

definition days_in_month :: "nat \<Rightarrow> nat \<Rightarrow> nat" where
  "days_in_month y m =
     (if m = 2 then (if is_leap y then 29 else 28)
      else if m = 4 \<or> m = 6 \<or> m = 9 \<or> m = 11 then 30 else 31)"

text \<open>The range of \<^verbatim>\<open>datetime\<close>: years 1 to 9999, a day that exists in its month.\<close>

definition valid_dt :: "datetime \<Rightarrow> bool" where
  "valid_dt d \<longleftrightarrow>
     1 \<le> year d \<and> year d \<le> 9999 \<and> 1 \<le> month d \<and> month d \<le> 12 \<and>
     1 \<le> day d \<and> day d \<le> days_in_month (year d) (month d) \<and>
     hour d < 24 \<and> minute d < 60 \<and> second d < 60"

text \<open>
  \<^verbatim>\<open>toordinal\<close>, as \<^verbatim>\<open>datetime.py\<close> computes it: the days before the year, the days
  before the month, the day. \<open>days_before_month\<close> accumulates \<open>days_in_month\<close>, which is how
  the library builds its table.
\<close>

definition days_before_year :: "nat \<Rightarrow> nat" where
  "days_before_year y =
     (let p = y - 1 in p * 365 + p div 4 - p div 100 + p div 400)"

fun days_before_month :: "nat \<Rightarrow> nat \<Rightarrow> nat" where
  "days_before_month y 0 = 0"
| "days_before_month y (Suc m) =
     (if m = 0 then 0 else days_before_month y m + days_in_month y m)"

definition toordinal :: "datetime \<Rightarrow> nat" where
  "toordinal d = days_before_year (year d) + days_before_month (year d) (month d) + day d"

text \<open>The instant of a UTC datetime, in seconds, on the scale of \<open>toordinal\<close>.\<close>

definition instant :: "datetime \<Rightarrow> nat" where
  "instant d = toordinal d * 86400 + hour d * 3600 + minute d * 60 + second d"

text \<open>
  \<^verbatim>\<open>d - timedelta(hours=48)\<close>. The library goes through the ordinal and raises
  \<^verbatim>\<open>OverflowError\<close> when the resulting ordinal is not positive; 48 hours are two whole
  days, so the time of day stays and the date steps back twice.
\<close>

definition yesterday :: "datetime \<Rightarrow> datetime" where
  "yesterday d =
     (if 1 < day d then d\<lparr>day := day d - 1\<rparr>
      else if 1 < month d
        then d\<lparr>month := month d - 1, day := days_in_month (year d) (month d - 1)\<rparr>
      else d\<lparr>year := year d - 1, month := 12, day := 31\<rparr>)"

definition minus_48h :: "datetime \<Rightarrow> exn + datetime" where
  "minus_48h d =
     (if toordinal d \<le> 2 then Inl OverflowError else Inr (yesterday (yesterday d)))"

subsection \<open>Formatting\<close>

definition digit :: "nat \<Rightarrow> char" where
  "digit n = char_of (48 + n)"

fun decimal :: "nat \<Rightarrow> string" where
  "decimal n = (if n < 10 then [digit n] else decimal (n div 10) @ [digit (n mod 10)])"

declare decimal.simps [simp del]

text \<open>\<^verbatim>\<open>%0wd\<close>: decimal, padded with zeros on the left to at least \<open>w\<close> characters.\<close>

definition zero_pad :: "nat \<Rightarrow> nat \<Rightarrow> string" where
  "zero_pad w n = replicate (w - length (decimal n)) (CHR ''0'') @ decimal n"

text \<open>
  \<^verbatim>\<open>d.strftime("%Y-%m-%dT%H:%M:%SZ")\<close>, as CPython hands it to the C library: \<^verbatim>\<open>%Y\<close>
  is the year in decimal without padding (\<open>999\<close>, \<open>2025\<close>), the other fields have two
  digits; the \<open>Z\<close> is a literal of the format.
\<close>

definition strftime :: "datetime \<Rightarrow> string" where
  "strftime d =
     decimal (year d) @ ''-'' @ zero_pad 2 (month d) @ ''-'' @ zero_pad 2 (day d) @ ''T'' @
     zero_pad 2 (hour d) @ '':'' @ zero_pad 2 (minute d) @ '':'' @ zero_pad 2 (second d) @ ''Z''"

section \<open>Data frames and the measurement table\<close>

text \<open>
  One row of a \<^verbatim>\<open>DataFrame\<close> with the five columns the program uses. The frame that
  \<open>fetch_open_meteo\<close> builds holds datetimes and Python numbers; the frame that the query
  reads back holds the stored text and the stored SQL values.
\<close>

record ('t, 'v, 'c) frame_row =
  timestamp :: 't
  temperature_2m :: 'v
  relative_humidity_2m :: 'v
  latitude :: 'c
  longitude :: 'c

type_synonym fetched_row = "(datetime, pyval, pyval) frame_row"

text \<open>
  The columns of table \<^verbatim>\<open>weather\<close> after \<^verbatim>\<open>id\<close>: \<^verbatim>\<open>timestamp TEXT NOT NULL\<close>, two
  nullable \<^verbatim>\<open>REAL\<close>s (\<open>None\<close> is \<^verbatim>\<open>NULL\<close>), two \<^verbatim>\<open>REAL NOT NULL\<close>.
\<close>

type_synonym stored_row = "(string, real option, real) frame_row"

record weather_row =
  rowid :: nat
  cols :: stored_row

text \<open>
  The database file: the rows of \<^verbatim>\<open>weather\<close> in rowid order and the counter that
  \<^verbatim>\<open>AUTOINCREMENT\<close> keeps in \<^verbatim>\<open>sqlite_sequence\<close>.
\<close>

record db =
  weather :: "weather_row list"
  sqlite_sequence :: nat

text \<open>
  A connection in the \<^verbatim>\<open>sqlite3\<close> module's default transaction mode: a data-changing
  statement works on the pending state, \<^verbatim>\<open>commit\<close> makes it durable, \<^verbatim>\<open>rollback\<close>
  discards it. Leaving the \<^verbatim>\<open>with\<close> block commits when the body returned and rolls back
  when it raised.
\<close>

record conn =
  durable :: db
  pending :: db

definition get_conn :: "db \<Rightarrow> conn" where
  "get_conn d = \<lparr>durable = d, pending = d\<rparr>"

definition commit :: "conn \<Rightarrow> conn" where
  "commit c = c\<lparr>durable := pending c\<rparr>"

definition rollback :: "conn \<Rightarrow> conn" where
  "rollback c = c\<lparr>pending := durable c\<rparr>"

fun conn_exit :: "(exn + 'a) \<times> conn \<Rightarrow> (exn + 'a) \<times> db" where
  "conn_exit (Inr v, c) = (Inr v, durable (commit c))"
| "conn_exit (Inl e, c) = (Inl e, durable (rollback c))"

text \<open>
  \<open>init_db\<close>: \<^verbatim>\<open>CREATE TABLE IF NOT EXISTS\<close>. \<open>None\<close> is a database file without the
  table; an existing table is left as it is.
\<close>

definition init_db :: "db option \<Rightarrow> db" where
  "init_db f = (case f of None \<Rightarrow> \<lparr>weather = [], sqlite_sequence = 0\<rparr> | Some d \<Rightarrow> d)"

section \<open>Insert and query\<close>

text \<open>The columns of \<^verbatim>\<open>UNIQUE (timestamp, latitude, longitude)\<close>.\<close>

definition row_key :: "('t, 'v, 'c) frame_row \<Rightarrow> 't \<times> 'c \<times> 'c" where
  "row_key r = (timestamp r, latitude r, longitude r)"

text \<open>How \<^verbatim>\<open>sqlite3\<close> binds a Python float: a NaN is stored as \<^verbatim>\<open>NULL\<close>.\<close>

fun bind_real :: "pyval \<Rightarrow> real option" where
  "bind_real (PyFloat x) = Some x"
| "bind_real PyNaN = None"
| "bind_real PyNone = None"

text \<open>
  \<^verbatim>\<open>INSERT OR REPLACE INTO weather (...) VALUES (?, ?, ?, ?, ?)\<close>. A \<^verbatim>\<open>NULL\<close> for a
  \<^verbatim>\<open>NOT NULL\<close> column without default aborts the statement with \<^verbatim>\<open>IntegrityError\<close>.
  Otherwise every row that has the new row's unique key is deleted and the new row is
  appended under a fresh rowid, one more than the largest that ever existed.
\<close>

definition insert_or_replace ::
  "string \<Rightarrow> real option \<Rightarrow> real option \<Rightarrow> real option \<Rightarrow> real option \<Rightarrow> db \<Rightarrow> exn + db" where
  "insert_or_replace ts temp hum lat lon d =
     (case lat of None \<Rightarrow> Inl IntegrityError | Some la \<Rightarrow>
      (case lon of None \<Rightarrow> Inl IntegrityError | Some lo \<Rightarrow>
        (let new = \<lparr>timestamp = ts, temperature_2m = temp, relative_humidity_2m = hum,
                     latitude = la, longitude = lo\<rparr>;
             kept = filter (\<lambda>r. row_key (cols r) \<noteq> row_key new) (weather d);
             n = Suc (fold max (map rowid (weather d)) (sqlite_sequence d))
         in Inr \<lparr>weather = kept @ [\<lparr>rowid = n, cols = new\<rparr>], sqlite_sequence = n\<rparr>)))"

text \<open>
  The body of the loop of \<open>upsert_records\<close> for one row: the parameter tuple is built left
  to right (the first \<^verbatim>\<open>float\<close> that fails raises), then the statement runs.
\<close>

definition execute_insert :: "fetched_row \<Rightarrow> db \<Rightarrow> exn + db" where
  "execute_insert row d =
     (let ts = strftime (timestamp row) in
      case py_float (temperature_2m row) of Inl e \<Rightarrow> Inl e | Inr temp \<Rightarrow>
      (case py_float (relative_humidity_2m row) of Inl e \<Rightarrow> Inl e | Inr hum \<Rightarrow>
      (case py_float (latitude row) of Inl e \<Rightarrow> Inl e | Inr lat \<Rightarrow>
      (case py_float (longitude row) of Inl e \<Rightarrow> Inl e | Inr lon \<Rightarrow>
        insert_or_replace ts (bind_real temp) (bind_real hum) (bind_real lat) (bind_real lon) d))))"

fun upsert_loop :: "fetched_row list \<Rightarrow> nat \<Rightarrow> conn \<Rightarrow> (exn + nat) \<times> conn" where
  "upsert_loop [] rows c = (Inr rows, c)"
| "upsert_loop (row # df) rows c =
     (case execute_insert row (pending c) of
        Inl e \<Rightarrow> (Inl e, c)
      | Inr p \<Rightarrow> upsert_loop df (rows + 1) (c\<lparr>pending := p\<rparr>))"

text \<open>\<open>upsert_records\<close>: the result (or the exception) and the database file afterwards.\<close>

definition upsert_records :: "fetched_row list \<Rightarrow> db \<Rightarrow> (exn + nat) \<times> db" where
  "upsert_records df d =
     conn_exit
       (case upsert_loop df 0 (get_conn d) of
          (Inr rows, c) \<Rightarrow> (Inr rows, commit c)
        | (Inl e, c) \<Rightarrow> (Inl e, c))"

text \<open>
  \<open>query_last_48h\<close>, given the reading of the clock. The comparison and the sort are those
  of the \<^verbatim>\<open>TEXT\<close> column: bytewise, a proper prefix first. Rows with equal timestamps
  come in rowid order here; SQL leaves their order open. The frame keeps the stored text
  in its \<^verbatim>\<open>timestamp\<close> column (the re-parsing asked for by \<^verbatim>\<open>parse_dates\<close> is not
  modelled).
\<close>

definition query_last_48h :: "datetime \<Rightarrow> db \<Rightarrow> exn + stored_row list" where
  "query_last_48h now d =
     (case minus_48h now of
        Inl e \<Rightarrow> Inl e
      | Inr t \<Rightarrow>
          (let cutoff = strftime t in
           Inr (map cols
                 (sort_key (\<lambda>r. timestamp (cols r))
                   (filter (\<lambda>r. cutoff \<le> timestamp (cols r)) (weather d))))))"

section \<open>The Open-Meteo fetch\<close>

text \<open>
  The \<^verbatim>\<open>hourly\<close> object of the response with the three keys the program reads, each
  present or not: the time array holds strings, the other two hold numbers or \<^verbatim>\<open>null\<close>.
  A body is either not JSON, or a JSON object with or without the key \<^verbatim>\<open>hourly\<close>.
\<close>

record hourly_json =
  time_key :: "string list option"
  temperature_2m_key :: "real option list option"
  relative_humidity_2m_key :: "real option list option"

datatype body = NotJson | Json "hourly_json option"

text \<open>
  What \<^verbatim>\<open>requests.get(url, params, timeout=30)\<close> can come back with: no answer within
  the timeout, no connection, or a response with its status code and body.
\<close>

datatype http_outcome = TimedOut | Unreachable | Response nat body

text \<open>\<^verbatim>\<open>d.get(key, [])\<close>\<close>

definition get_or_empty :: "'a list option \<Rightarrow> 'a list" where
  "get_or_empty v = (case v of None \<Rightarrow> [] | Some xs \<Rightarrow> xs)"

text \<open>
  \<^verbatim>\<open>pd.to_datetime(times, utc=True)\<close> with the parser of one string as a parameter
  (\<open>None\<close>: the string is not a date, and the call raises \<^verbatim>\<open>ValueError\<close>).
\<close>

fun to_datetime :: "(string \<Rightarrow> datetime option) \<Rightarrow> string list \<Rightarrow> exn + datetime list" where
  "to_datetime parse [] = Inr []"
| "to_datetime parse (s # ss) =
     (case parse s of
        None \<Rightarrow> Inl (ValueError ''Unknown datetime string format'')
      | Some t \<Rightarrow> (case to_datetime parse ss of Inl e \<Rightarrow> Inl e | Inr ts \<Rightarrow> Inr (t # ts)))"

text \<open>
  A numeric column as the \<^verbatim>\<open>DataFrame\<close> constructor makes it from a list of numbers and
  \<^verbatim>\<open>None\<close>s: a list of \<^verbatim>\<open>None\<close>s only stays as it is, otherwise a \<^verbatim>\<open>None\<close> becomes NaN.
\<close>

definition frame_column :: "real option list \<Rightarrow> pyval list" where
  "frame_column xs =
     (if list_all (\<lambda>x. x = None) xs then map (\<lambda>x. PyNone) xs
      else map (\<lambda>x. case x of None \<Rightarrow> PyNaN | Some v \<Rightarrow> PyFloat v) xs)"

text \<open>
  \<open>fetch_open_meteo\<close>, given the outcome of the request. \<^verbatim>\<open>raise_for_status\<close> raises for
  the status codes 400 to 599. The \<^verbatim>\<open>DataFrame\<close> constructor raises \<^verbatim>\<open>ValueError\<close> when
  its columns differ in length. \<^verbatim>\<open>sort_values\<close> orders by instant (rows with equal
  instants keep their order here; the library leaves it open). The coordinates are
  assigned to the sorted frame as \<^verbatim>\<open>float(lat)\<close> and \<^verbatim>\<open>float(lon)\<close>.
\<close>

definition fetch_open_meteo ::
  "(string \<Rightarrow> datetime option) \<Rightarrow> http_outcome \<Rightarrow> pyval \<Rightarrow> pyval \<Rightarrow> exn + fetched_row list" where
  "fetch_open_meteo parse r lat lon =
     (case r of
        TimedOut \<Rightarrow> Inl Timeout
      | Unreachable \<Rightarrow> Inl ConnectionError
      | Response code b \<Rightarrow>
          if 400 \<le> code \<and> code < 600 then Inl (HTTPError code)
          else (case b of
            NotJson \<Rightarrow> Inl JSONDecodeError
          | Json data \<Rightarrow>
              (let hourly = (case data of None \<Rightarrow> \<lparr>time_key = None, temperature_2m_key = None,
                                                   relative_humidity_2m_key = None\<rparr>
                             | Some h \<Rightarrow> h);
                   times = get_or_empty (time_key hourly);
                   temps = get_or_empty (temperature_2m_key hourly);
                   hums = get_or_empty (relative_humidity_2m_key hourly)
               in if times = [] \<or> temps = [] \<or> hums = []
                  then Inl (ValueError ''Open-Meteo response missing expected hourly data.'')
                  else (case to_datetime parse times of
                    Inl e \<Rightarrow> Inl e
                  | Inr ts \<Rightarrow>
                      if length ts \<noteq> length temps \<or> length ts \<noteq> length hums
                      then Inl (ValueError ''All arrays must be of the same length'')
                      else (let df = sort_key (\<lambda>(t, temp, hum). instant t)
                                       (zip ts (zip (frame_column temps) (frame_column hums)))
                            in case py_float lat of Inl e \<Rightarrow> Inl e | Inr la \<Rightarrow>
                               (case py_float lon of Inl e \<Rightarrow> Inl e | Inr lo \<Rightarrow>
                                  Inr (map (\<lambda>(t, temp, hum).
                                         \<lparr>timestamp = t, temperature_2m = temp,
                                          relative_humidity_2m = hum,
                                          latitude = la, longitude = lo\<rparr>) df)))))))"

section \<open>The routes\<close>

datatype attachment = Pdf "stored_row list"

datatype payload =
    ErrorMessage string
  | HttpErrorMessage exn
  | ExceptionMessage exn
  | Summary string nat string string nat
  | Attachment string string attachment
  | InternalServerError exn

text \<open>
  \<^verbatim>\<open>Series.min()\<close> and \<^verbatim>\<open>Series.max()\<close> of a datetime column; \<open>None\<close> is \<^verbatim>\<open>NaT\<close>, the
  answer for an empty column, whose \<^verbatim>\<open>strftime\<close> raises \<^verbatim>\<open>ValueError\<close>.
\<close>

fun series_min :: "datetime list \<Rightarrow> datetime option" where
  "series_min [] = None"
| "series_min (t # ts) =
     (case series_min ts of None \<Rightarrow> Some t
      | Some u \<Rightarrow> Some (if instant t \<le> instant u then t else u))"

fun series_max :: "datetime list \<Rightarrow> datetime option" where
  "series_max [] = None"
| "series_max (t # ts) =
     (case series_max ts of None \<Rightarrow> Some t
      | Some u \<Rightarrow> Some (if instant u \<le> instant t then t else u))"

definition strftime_nat :: "datetime option \<Rightarrow> exn + string" where
  "strftime_nat t =
     (case t of None \<Rightarrow> Inl (ValueError ''NaTType does not support strftime'')
      | Some d \<Rightarrow> Inr (strftime d))"

text \<open>
  The \<^verbatim>\<open>try\<close> block of \<open>weather_report\<close>: fetch, upsert, summary. The exception, if
  any, and the database file afterwards.
\<close>

definition report_body ::
  "(string \<Rightarrow> datetime option) \<Rightarrow> http_outcome \<Rightarrow> pyval \<Rightarrow> pyval \<Rightarrow> db \<Rightarrow> (exn + payload) \<times> db" where
  "report_body parse r lat lon d =
     (case fetch_open_meteo parse r lat lon of
        Inl e \<Rightarrow> (Inl e, d)
      | Inr df \<Rightarrow>
          (case upsert_records df d of
             (Inl e, d') \<Rightarrow> (Inl e, d')
           | (Inr upserted, d') \<Rightarrow>
               (case strftime_nat (series_min (map timestamp df)) of
                  Inl e \<Rightarrow> (Inl e, d')
                | Inr from \<Rightarrow>
                    (case strftime_nat (series_max (map timestamp df)) of
                       Inl e \<Rightarrow> (Inl e, d')
                     | Inr to \<Rightarrow>
                         (Inr (Summary ''Data fetched and stored'' upserted from to (length df)),
                          d')))))"

text \<open>
  \<open>weather_report\<close>. The query parameters are absent (\<open>None\<close>) or strings, \<open>to_float\<close> is
  \<^verbatim>\<open>float\<close> on a string (\<open>None\<close>: \<^verbatim>\<open>ValueError\<close>), \<open>upstream\<close> is what the network
  answers for a coordinate. The result is the body with the status code, and the
  database file afterwards.
\<close>

definition weather_report ::
  "(string \<Rightarrow> pyval option) \<Rightarrow> (string \<Rightarrow> datetime option) \<Rightarrow> (pyval \<Rightarrow> pyval \<Rightarrow> http_outcome) \<Rightarrow>
   string option \<Rightarrow> string option \<Rightarrow> db \<Rightarrow> (payload \<times> nat) \<times> db" where
  "weather_report to_float parse upstream lat_arg lon_arg d =
     (case Option.bind lat_arg to_float of
        None \<Rightarrow> ((ErrorMessage ''Please provide numeric lat & lon query params'', 400), d)
      | Some lat \<Rightarrow>
          (case Option.bind lon_arg to_float of
             None \<Rightarrow> ((ErrorMessage ''Please provide numeric lat & lon query params'', 400), d)
           | Some lon \<Rightarrow>
               (case report_body parse (upstream lat lon) lat lon d of
                  (Inr summary, d') \<Rightarrow> ((summary, 200), d')
                | (Inl (HTTPError code), d') \<Rightarrow> ((HttpErrorMessage (HTTPError code), 502), d')
                | (Inl e, d') \<Rightarrow> ((ExceptionMessage e, 500), d'))))"

text \<open>
  The export routes. An exception that leaves a view function is Flask's 500 response.
  The timestamps that the program stores end in \<open>Z\<close>, so the \<^verbatim>\<open>timestamp\<close> column that
  \<^verbatim>\<open>parse_dates\<close> builds is timezone-aware, and \<^verbatim>\<open>to_excel\<close> refuses such a column with
  \<^verbatim>\<open>ValueError\<close>: for a frame that is not empty \<open>export_excel\<close> raises. The document is
  rendered by the chart and document libraries from the frame; the attachment stands
  for the rendering of its argument.
\<close>

definition export_excel :: "datetime \<Rightarrow> db \<Rightarrow> payload \<times> nat" where
  "export_excel now d =
     (case query_last_48h now d of
        Inl e \<Rightarrow> (InternalServerError e, 500)
      | Inr df \<Rightarrow>
          if df = [] then (ErrorMessage ''No data available. Call /weather-report first.'', 400)
          else (InternalServerError
                  (ValueError ''Excel does not support datetimes with timezones''), 500))"

definition export_pdf :: "datetime \<Rightarrow> db \<Rightarrow> payload \<times> nat" where
  "export_pdf now d =
     (case query_last_48h now d of
        Inl e \<Rightarrow> (InternalServerError e, 500)
      | Inr df \<Rightarrow>
          if df = [] then (ErrorMessage ''No data available. Call /weather-report first.'', 400)
          else (Attachment ''application/pdf'' ''weather_report.pdf'' (Pdf df), 200))"

section \<open>Notions used in the statements\<close>

text \<open>The last \<open>w\<close> decimal digits of a number, most significant first.\<close>

fun digits :: "nat \<Rightarrow> nat \<Rightarrow> string" where
  "digits 0 n = []"
| "digits (Suc w) n = digits w (n div 10) @ [digit (n mod 10)]"

text \<open>The civil fields in the order in which \<^verbatim>\<open>datetime\<close> compares them.\<close>

definition civil_fields :: "datetime \<Rightarrow> nat list" where
  "civil_fields d = [year d, month d, day d, hour d, minute d, second d]"

definition year_length :: "nat \<Rightarrow> nat" where
  "year_length y = (if is_leap y then 366 else 365)"

text \<open>
  A datetime whose year has four digits. Every nanosecond \<^verbatim>\<open>Timestamp\<close> of pandas (years
  1677 to 2262) is one.
\<close>

definition is_timestamp :: "datetime \<Rightarrow> bool" where
  "is_timestamp d \<longleftrightarrow> valid_dt d \<and> 1000 \<le> year d"

text \<open>A reading of the system clock: a datetime not before 1970.\<close>

definition wall_clock :: "datetime \<Rightarrow> bool" where
  "wall_clock now \<longleftrightarrow> valid_dt now \<and> 1970 \<le> year now"

text \<open>
  The row that the insert statement of \<open>upsert_records\<close> writes for a frame row, when all
  four \<^verbatim>\<open>float\<close> conversions succeed and both coordinates are numbers.
\<close>

definition stored_form :: "fetched_row \<Rightarrow> stored_row option" where
  "stored_form r =
     (case (latitude r, longitude r) of
        (PyFloat la, PyFloat lo) \<Rightarrow>
          if temperature_2m r = PyNone \<or> relative_humidity_2m r = PyNone then None
          else Some \<lparr>timestamp = strftime (timestamp r),
                      temperature_2m = bind_real (temperature_2m r),
                      relative_humidity_2m = bind_real (relative_humidity_2m r),
                      latitude = la, longitude = lo\<rparr>
      | _ \<Rightarrow> None)"

text \<open>The constraint \<^verbatim>\<open>UNIQUE (timestamp, latitude, longitude)\<close> holds in a database.\<close>

definition unique_keys :: "db \<Rightarrow> bool" where
  "unique_keys d \<longleftrightarrow> distinct (map (\<lambda>r. row_key (cols r)) (weather d))"

text \<open>The database after the insert statement has written the row \<open>s\<close>.\<close>

definition put_row :: "stored_row \<Rightarrow> db \<Rightarrow> db" where
  "put_row s d =
     (let n = Suc (fold max (map rowid (weather d)) (sqlite_sequence d))
      in \<lparr>weather = filter (\<lambda>w. row_key (cols w) \<noteq> row_key s) (weather d) @ [\<lparr>rowid = n, cols = s\<rparr>],
          sqlite_sequence = n\<rparr>)"

subsection \<open>Example data\<close>

definition ex_noon :: datetime where
  "ex_noon = \<lparr>year = 2025, month = 6, day = 1, hour = 12, minute = 0, second = 0\<rparr>"

definition ex_row :: fetched_row where
  "ex_row = \<lparr>timestamp = ex_noon, temperature_2m = PyFloat 21.5, relative_humidity_2m = PyFloat 40,
             latitude = PyFloat 52.5, longitude = PyFloat 13.4\<rparr>"

definition ex_row_again :: fetched_row where
  "ex_row_again = ex_row\<lparr>temperature_2m := PyFloat 22, relative_humidity_2m := PyFloat 38\<rparr>"

definition ex_row_null :: fetched_row where
  "ex_row_null = \<lparr>timestamp = ex_noon\<lparr>hour := 13\<rparr>, temperature_2m = PyNone,
                  relative_humidity_2m = PyFloat 41, latitude = PyFloat 52.5, longitude = PyFloat 13.4\<rparr>"

definition ex_stored :: stored_row where
  "ex_stored = \<lparr>timestamp = ''2025-06-01T12:00:00Z'', temperature_2m = Some 21.5,
                relative_humidity_2m = Some 40, latitude = 52.5, longitude = 13.4\<rparr>"

text \<open>
  A reading of the clock half an hour after \<open>ex_noon\<close>, a forecast row for the next day, a
  row older than 48 hours, a row of the year 999, the table holding the first three
  rows, and an upstream answer with two hours in descending order.
\<close>

definition ex_now :: datetime where
  "ex_now = \<lparr>year = 2025, month = 6, day = 1, hour = 12, minute = 30, second = 0\<rparr>"

definition ex_row_forecast :: fetched_row where
  "ex_row_forecast = ex_row\<lparr>timestamp := ex_noon\<lparr>day := 2\<rparr>, temperature_2m := PyFloat 25\<rparr>"

definition ex_row_old :: fetched_row where
  "ex_row_old = ex_row\<lparr>timestamp := ex_noon\<lparr>month := 5, day := 30\<rparr>, temperature_2m := PyFloat 17\<rparr>"


definition ex_db :: db where
  "ex_db = snd (upsert_records [ex_row_forecast, ex_row_old, ex_row] (init_db None))"

definition ex_to_float :: "string \<Rightarrow> pyval option" where
  "ex_to_float s =
     (if s = ''52.5'' then Some (PyFloat 52.5) else if s = ''13.4'' then Some (PyFloat 13.4)
      else None)"

definition ex_parse :: "string \<Rightarrow> datetime option" where
  "ex_parse s =
     (if s = ''2025-06-01T12:00'' then Some ex_noon
      else if s = ''2025-06-01T13:00'' then Some (ex_noon\<lparr>hour := 13\<rparr>)
      else None)"

definition ex_hourly :: hourly_json where
  "ex_hourly = \<lparr>time_key = Some [''2025-06-01T13:00'', ''2025-06-01T12:00''],
                temperature_2m_key = Some [Some 22, Some 21.5],
                relative_humidity_2m_key = Some [Some 38, Some 40]\<rparr>"

section \<open>Decimal text and its order\<close>

lemma of_char_digit: "n < 10 \<Longrightarrow> of_char (digit n) = 48 + n"
  by (simp add: digit_def)

lemma digit_less_iff: "a < 10 \<Longrightarrow> b < 10 \<Longrightarrow> digit a < digit b \<longleftrightarrow> a < b"
  by (simp add: less_char_def of_char_digit)

lemma digit_zero: "digit 0 = CHR ''0''"
  unfolding digit_def by (rule of_char_eqI[where ?'a = nat]) simp

lemma length_digits: "length (digits w n) = w"
  by (induction w arbitrary: n) auto

lemma digits_zero: "digits w 0 = replicate w (CHR ''0'')"
  by (induction w) (simp_all add: digit_zero replicate_append_same)

lemma length_decimal_pos: "0 < length (decimal n)"
  by (subst decimal.simps) simp

lemma length_decimal_le: "n < 10 ^ Suc w \<Longrightarrow> length (decimal n) \<le> Suc w"
proof (induction w arbitrary: n)
  case 0
  then show ?case by (subst decimal.simps) simp
next
  case (Suc w)
  show ?case
  proof (cases "n < 10")
    case True
    then show ?thesis by (subst decimal.simps) simp
  next
    case False
    from Suc.prems have "n div 10 < 10 ^ Suc w" by simp
    then have "length (decimal (n div 10)) \<le> Suc w" by (rule Suc.IH)
    with False show ?thesis by (subst decimal.simps) simp
  qed
qed

lemma zero_pad_digits: "n < 10 ^ Suc w \<Longrightarrow> zero_pad (Suc w) n = digits (Suc w) n"
proof (induction w arbitrary: n)
  case 0
  then have "decimal n = [digit n]" by (subst decimal.simps) simp
  with 0 show ?case by (simp add: zero_pad_def)
next
  case (Suc w)
  show ?case
  proof (cases "n < 10")
    case True
    then have d: "decimal n = [digit n]" by (subst decimal.simps) simp
    from True have "digits (Suc w) (n div 10) = replicate (Suc w) (CHR ''0'')"
      using digits_zero [of "Suc w"] by simp
    with d True show ?thesis by (simp add: zero_pad_def)
  next
    case False
    from Suc.prems have lt: "n div 10 < 10 ^ Suc w" by simp
    have d: "decimal n = decimal (n div 10) @ [digit (n mod 10)]"
      using False by (subst decimal.simps) simp
    have "zero_pad (Suc (Suc w)) n = zero_pad (Suc w) (n div 10) @ [digit (n mod 10)]"
      using length_decimal_le [OF lt] by (simp add: zero_pad_def d)
    with Suc.IH [OF lt] show ?thesis by simp
  qed
qed

lemma snoc_less_iff:
  "length xs = length ys \<Longrightarrow> xs @ [a] < ys @ [b] \<longleftrightarrow> xs < ys \<or> xs = ys \<and> a < (b::'a::linorder)"
  by (induction xs ys rule: list_induct2) auto

lemma div_mod_lex:
  "(a div 10 < b div 10 \<or> a div 10 = b div 10 \<and> a mod 10 < b mod 10) \<longleftrightarrow> a < (b::nat)"
proof -
  obtain qa ra where a: "a = 10 * qa + ra" "ra < 10" "a div 10 = qa" "a mod 10 = ra"
    by (metis mod_less_divisor mult_div_mod_eq zero_less_numeral)
  obtain qb rb where b: "b = 10 * qb + rb" "rb < 10" "b div 10 = qb" "b mod 10 = rb"
    by (metis mod_less_divisor mult_div_mod_eq zero_less_numeral)
  show ?thesis
    unfolding a(3,4) b(3,4) using a(1,2) b(1,2) by arith
qed

lemma digits_less_iff:
  "a < 10 ^ w \<Longrightarrow> b < 10 ^ w \<Longrightarrow> digits w a < digits w b \<longleftrightarrow> a < b"
proof (induction w arbitrary: a b)
  case 0
  then show ?case by simp
next
  case (Suc w)
  have la: "a div 10 < 10 ^ w" and lb: "b div 10 < 10 ^ w"
    using Suc.prems by simp_all
  have inj: "digits w (a div 10) = digits w (b div 10) \<longleftrightarrow> a div 10 = b div 10"
  proof
    assume eq: "digits w (a div 10) = digits w (b div 10)"
    have "\<not> a div 10 < b div 10" "\<not> b div 10 < a div 10"
      using Suc.IH [OF la lb] Suc.IH [OF lb la] eq by simp_all
    then show "a div 10 = b div 10" by simp
  qed simp
  have "digits (Suc w) a < digits (Suc w) b \<longleftrightarrow>
        a div 10 < b div 10 \<or> a div 10 = b div 10 \<and> a mod 10 < b mod 10"
    by (simp add: snoc_less_iff length_digits Suc.IH [OF la lb] inj digit_less_iff)
  also have "\<dots> \<longleftrightarrow> a < b"
    by (rule div_mod_lex)
  finally show ?case .
qed

lemma zero_pad_less_iff:
  "a < 10 ^ Suc w \<Longrightarrow> b < 10 ^ Suc w \<Longrightarrow> zero_pad (Suc w) a < zero_pad (Suc w) b \<longleftrightarrow> a < b"
  by (simp only: zero_pad_digits digits_less_iff)

lemma length_zero_pad: "a < 10 ^ Suc w \<Longrightarrow> length (zero_pad (Suc w) a) = Suc w"
  by (simp only: zero_pad_digits length_digits)

lemma zero_pad_eq_iff:
  assumes "a < 10 ^ Suc w" "b < 10 ^ Suc w"
  shows "zero_pad (Suc w) a = zero_pad (Suc w) b \<longleftrightarrow> a = b"
proof
  assume eq: "zero_pad (Suc w) a = zero_pad (Suc w) b"
  have "\<not> a < b" "\<not> b < a"
    using zero_pad_less_iff [OF assms] zero_pad_less_iff [OF assms(2,1)] eq by simp_all
  then show "a = b" by simp
qed simp

lemma append_less_iff:
  "length xs = length ys \<Longrightarrow> xs @ u < ys @ v \<longleftrightarrow> xs < ys \<or> xs = ys \<and> u < (v::'a::linorder list)"
  by (induction xs ys rule: list_induct2) auto

lemma pad4_less: "a < 10000 \<Longrightarrow> b < 10000 \<Longrightarrow> zero_pad 4 a < zero_pad 4 b \<longleftrightarrow> a < b"
  using zero_pad_less_iff [of a 3 b] by simp

lemma pad4_eq: "a < 10000 \<Longrightarrow> b < 10000 \<Longrightarrow> zero_pad 4 a = zero_pad 4 b \<longleftrightarrow> a = b"
  using zero_pad_eq_iff [of a 3 b] by simp

lemma pad4_length: "a < 10000 \<Longrightarrow> length (zero_pad 4 a) = 4"
  using length_zero_pad [of a 3] by simp

lemma pad2_less: "a < 100 \<Longrightarrow> b < 100 \<Longrightarrow> zero_pad 2 a < zero_pad 2 b \<longleftrightarrow> a < b"
  using zero_pad_less_iff [of a 1 b] by (simp add: numeral_2_eq_2)

lemma pad2_eq: "a < 100 \<Longrightarrow> b < 100 \<Longrightarrow> zero_pad 2 a = zero_pad 2 b \<longleftrightarrow> a = b"
  using zero_pad_eq_iff [of a 1 b] by (simp add: numeral_2_eq_2)

lemma pad2_length: "a < 100 \<Longrightarrow> length (zero_pad 2 a) = 2"
  using length_zero_pad [of a 1] by (simp add: numeral_2_eq_2)

lemma days_in_month_le: "days_in_month y m \<le> 31"
  by (simp add: days_in_month_def)

lemma valid_dt_bounds:
  assumes "valid_dt d"
  shows "year d < 10000" "month d < 100" "day d < 100" "hour d < 100" "minute d < 100"
    "second d < 100"
  using assms days_in_month_le [of "year d" "month d"] by (auto simp: valid_dt_def)

lemma length_decimal_ge: "10 ^ w \<le> n \<Longrightarrow> Suc w \<le> length (decimal n)"
proof (induction w arbitrary: n)
  case 0
  show ?case by (metis length_decimal_pos Suc_leI)
next
  case (Suc w)
  have "(1::nat) \<le> 10 ^ w" by simp
  then have "(10::nat) \<le> 10 ^ Suc w" by simp
  from this Suc.prems have ge: "10 \<le> n" by (rule le_trans)
  from Suc.prems have "10 ^ w \<le> n div 10" by simp
  then have "Suc w \<le> length (decimal (n div 10))" by (rule Suc.IH)
  with ge show ?case by (subst decimal.simps) simp
qed

lemma decimal_zero_pad_4:
  assumes "1000 \<le> n" and "n < 10000"
  shows "decimal n = zero_pad 4 n"
proof -
  have "Suc 3 \<le> length (decimal n)"
    using assms(1) by (intro length_decimal_ge) simp
  moreover have "length (decimal n) \<le> Suc 3"
    using assms(2) by (intro length_decimal_le) simp
  ultimately have "length (decimal n) = 4" by simp
  then show ?thesis by (simp add: zero_pad_def)
qed

lemma is_timestamp_valid: "is_timestamp d \<Longrightarrow> valid_dt d"
  by (simp add: is_timestamp_def)

lemma strftime_padded:
  assumes "is_timestamp d"
  shows "strftime d =
     zero_pad 4 (year d) @ ''-'' @ zero_pad 2 (month d) @ ''-'' @ zero_pad 2 (day d) @ ''T'' @
     zero_pad 2 (hour d) @ '':'' @ zero_pad 2 (minute d) @ '':'' @ zero_pad 2 (second d) @ ''Z''"
proof -
  from assms have "1000 \<le> year d" "year d < 10000"
    by (simp_all add: is_timestamp_def valid_dt_def)
  then show ?thesis by (simp add: strftime_def decimal_zero_pad_4)
qed

lemma strftime_less_iff:
  assumes "is_timestamp a" "is_timestamp b"
  shows "strftime a < strftime b \<longleftrightarrow> civil_fields a < civil_fields b"
  using valid_dt_bounds [OF is_timestamp_valid [OF assms(1)]]
    valid_dt_bounds [OF is_timestamp_valid [OF assms(2)]]
  by (simp add: strftime_padded [OF assms(1)] strftime_padded [OF assms(2)] civil_fields_def
      append_less_iff pad4_length pad2_length pad4_less pad4_eq pad2_less pad2_eq)


section \<open>The calendar\<close>

lemma mod_100_4: "(n::nat) mod 100 = 0 \<Longrightarrow> n mod 4 = 0"
proof -
  assume "n mod 100 = 0"
  then have "100 dvd n" by (simp add: mod_eq_0_iff_dvd)
  moreover have "(4::nat) dvd 100" by simp
  ultimately have "4 dvd n" by (rule dvd_trans [rotated])
  then show ?thesis by (simp add: mod_eq_0_iff_dvd)
qed

lemma mod_400_100: "(n::nat) mod 400 = 0 \<Longrightarrow> n mod 100 = 0"
proof -
  assume "n mod 400 = 0"
  then have "400 dvd n" by (simp add: mod_eq_0_iff_dvd)
  moreover have "(100::nat) dvd 400" by simp
  ultimately have "100 dvd n" by (rule dvd_trans [rotated])
  then show ?thesis by (simp add: mod_eq_0_iff_dvd)
qed

lemma days_before_year_Suc:
  assumes "1 \<le> y"
  shows "days_before_year (Suc y) = days_before_year y + year_length y"
proof -
  from assms obtain p where y: "y = Suc p" by (cases y) auto
  define a b c where "a = p div 4" and "b = p div 100" and "c = p div 400"
  have le: "b \<le> a" unfolding a_def b_def by (rule div_le_mono2) simp_all
  have d4: "Suc p div 4 = (if Suc p mod 4 = 0 then Suc a else a)"
    unfolding a_def by (rule div_Suc)
  have d100: "Suc p div 100 = (if Suc p mod 100 = 0 then Suc b else b)"
    unfolding b_def by (rule div_Suc)
  have d400: "Suc p div 400 = (if Suc p mod 400 = 0 then Suc c else c)"
    unfolding c_def by (rule div_Suc)
  have old: "days_before_year y = p * 365 + a - b + c"
    by (simp add: y days_before_year_def a_def b_def c_def)
  have new: "days_before_year (Suc y) =
      Suc p * 365 + (if Suc p mod 4 = 0 then Suc a else a)
        - (if Suc p mod 100 = 0 then Suc b else b) + (if Suc p mod 400 = 0 then Suc c else c)"
    by (simp only: y days_before_year_def Let_def diff_Suc_1 d4 d100 d400)
  have len: "year_length y =
      (if Suc p mod 4 = 0 \<and> (Suc p mod 100 \<noteq> 0 \<or> Suc p mod 400 = 0) then 366 else 365)"
    by (simp only: y year_length_def is_leap_def)
  show ?thesis
    unfolding old new len
    using le mod_100_4 [of "Suc p"] mod_400_100 [of "Suc p"]
    by (cases "Suc p mod 4 = 0"; cases "Suc p mod 100 = 0"; cases "Suc p mod 400 = 0") simp_all
qed

lemma days_before_year_mono: "1 \<le> y \<Longrightarrow> y \<le> z \<Longrightarrow> days_before_year y \<le> days_before_year z"
proof (induction z)
  case 0
  then show ?case by simp
next
  case (Suc z)
  show ?case
  proof (cases "y = Suc z")
    case True
    then show ?thesis by simp
  next
    case False
    with Suc.prems have "y \<le> z" by simp
    with Suc have "days_before_year y \<le> days_before_year z" by simp
    moreover have "1 \<le> z" using Suc.prems \<open>y \<le> z\<close> by simp
    ultimately show ?thesis by (simp add: days_before_year_Suc)
  qed
qed

lemma days_before_month_Suc:
  "1 \<le> m \<Longrightarrow> days_before_month y (Suc m) = days_before_month y m + days_in_month y m"
  by simp

lemma days_before_month_mono: "m \<le> n \<Longrightarrow> days_before_month y m \<le> days_before_month y n"
proof (induction n)
  case 0
  then show ?case by simp
next
  case (Suc n)
  show ?case
  proof (cases "m = Suc n")
    case True
    then show ?thesis by simp
  next
    case False
    with Suc.prems have "m \<le> n" by simp
    then have "days_before_month y m \<le> days_before_month y n" by (rule Suc.IH)
    moreover have "days_before_month y n \<le> days_before_month y (Suc n)"
      by (cases n) simp_all
    ultimately show ?thesis by simp
  qed
qed

lemma days_before_month_13: "days_before_month y 13 = year_length y"
  by (simp add: eval_nat_numeral days_in_month_def year_length_def)

lemma toordinal_bounds:
  assumes "valid_dt d"
  shows "days_before_year (year d) < toordinal d"
    and "toordinal d \<le> days_before_year (Suc (year d))"
proof -
  from assms have m: "1 \<le> month d" "month d \<le> 12" and dd: "1 \<le> day d"
    "day d \<le> days_in_month (year d) (month d)" and y: "1 \<le> year d"
    by (simp_all add: valid_dt_def)
  show "days_before_year (year d) < toordinal d"
    using dd by (simp add: toordinal_def)
  have "days_before_month (year d) (month d) + day d \<le> days_before_month (year d) (Suc (month d))"
    using dd m by (simp add: days_before_month_Suc)
  also have "\<dots> \<le> days_before_month (year d) 13"
    using m by (intro days_before_month_mono) simp
  finally have "days_before_month (year d) (month d) + day d \<le> year_length (year d)"
    by (simp add: days_before_month_13)
  then show "toordinal d \<le> days_before_year (Suc (year d))"
    using y by (simp add: toordinal_def days_before_year_Suc)
qed

lemma toordinal_less_year:
  assumes "valid_dt a" "valid_dt b" "year a < year b"
  shows "toordinal a < toordinal b"
proof -
  have "toordinal a \<le> days_before_year (Suc (year a))"
    by (rule toordinal_bounds [OF assms(1)])
  also have "\<dots> \<le> days_before_year (year b)"
    using assms(3) by (intro days_before_year_mono) simp_all
  also have "\<dots> < toordinal b"
    by (rule toordinal_bounds [OF assms(2)])
  finally show ?thesis .
qed

lemma toordinal_less_month:
  assumes "valid_dt a" "valid_dt b" "year a = year b" "month a < month b"
  shows "toordinal a < toordinal b"
proof -
  from assms(1) have m: "1 \<le> month a" and da: "day a \<le> days_in_month (year a) (month a)"
    by (simp_all add: valid_dt_def)
  from assms(2) have db: "1 \<le> day b" by (simp add: valid_dt_def)
  have "days_before_month (year a) (month a) + day a \<le> days_before_month (year a) (Suc (month a))"
    using m da by (simp add: days_before_month_Suc)
  also have "\<dots> \<le> days_before_month (year a) (month b)"
    using assms(4) by (intro days_before_month_mono) simp
  finally show ?thesis
    using db assms(3) by (simp add: toordinal_def)
qed

lemma toordinal_less_day:
  assumes "year a = year b" "month a = month b" "day a < day b"
  shows "toordinal a < toordinal b"
  using assms by (simp add: toordinal_def)

lemma toordinal_eq:
  assumes "year a = year b" "month a = month b" "day a = day b"
  shows "toordinal a = toordinal b"
  using assms by (simp add: toordinal_def)

lemma instant_less_day:
  assumes "valid_dt a" "toordinal a < toordinal b"
  shows "instant a < instant b"
proof -
  from assms(1) have "hour a * 3600 + minute a * 60 + second a < 86400"
    by (simp add: valid_dt_def)
  moreover from assms(2) have "toordinal a * 86400 + 86400 \<le> toordinal b * 86400"
    by simp
  ultimately show ?thesis by (simp add: instant_def)
qed

lemma instant_mono_strict:
  assumes "valid_dt a" "valid_dt b" "civil_fields a < civil_fields b"
  shows "instant a < instant b"
proof -
  consider "year a < year b"
    | "year a = year b" "month a < month b"
    | "year a = year b" "month a = month b" "day a < day b"
    | "year a = year b" "month a = month b" "day a = day b"
      "hour a < hour b \<or> hour a = hour b \<and> (minute a < minute b \<or> minute a = minute b \<and> second a < second b)"
    using assms(3) by (auto simp: civil_fields_def)
  then show ?thesis
  proof cases
    case 1
    then show ?thesis by (intro instant_less_day toordinal_less_year assms)
  next
    case 2
    then show ?thesis by (intro instant_less_day toordinal_less_month assms)
  next
    case 3
    then show ?thesis by (intro instant_less_day toordinal_less_day assms)
  next
    case 4
    from assms(1,2) have "minute a < 60" "second a < 60" "minute b < 60" "second b < 60"
      by (simp_all add: valid_dt_def)
    with 4(4) have "hour a * 3600 + minute a * 60 + second a < hour b * 3600 + minute b * 60 + second b"
      by arith
    with toordinal_eq [OF 4(1-3)] show ?thesis by (simp add: instant_def)
  qed
qed

lemma civil_fields_inject: "civil_fields a = civil_fields b \<longleftrightarrow> a = b"
  by (auto simp: civil_fields_def)

lemma instant_less_iff:
  assumes "valid_dt a" "valid_dt b"
  shows "instant a < instant b \<longleftrightarrow> civil_fields a < civil_fields b"
proof
  assume lt: "instant a < instant b"
  show "civil_fields a < civil_fields b"
  proof (rule ccontr)
    assume "\<not> civil_fields a < civil_fields b"
    then consider "civil_fields b < civil_fields a" | "civil_fields a = civil_fields b"
      by (auto simp: not_less le_less)
    then show False
    proof cases
      case 1
      from instant_mono_strict [OF assms(2,1) 1] lt show False by simp
    next
      case 2
      then have "a = b" by (simp add: civil_fields_inject)
      with lt show False by simp
    qed
  qed
qed (rule instant_mono_strict [OF assms])


lemma strftime_less_instant:
  assumes "is_timestamp a" "is_timestamp b"
  shows "strftime a < strftime b \<longleftrightarrow> instant a < instant b"
  by (simp only: strftime_less_iff [OF assms]
      instant_less_iff [OF is_timestamp_valid [OF assms(1)] is_timestamp_valid [OF assms(2)]])

lemma strftime_le_instant:
  assumes "is_timestamp a" "is_timestamp b"
  shows "strftime a \<le> strftime b \<longleftrightarrow> instant a \<le> instant b"
  using strftime_less_instant [OF assms(2,1)] by (simp add: not_less [symmetric])

lemma days_in_month_ge: "28 \<le> days_in_month y m"
  by (simp add: days_in_month_def)

lemma days_before_month_12: "days_before_month y 12 + 31 = year_length y"
  by (simp add: eval_nat_numeral days_in_month_def year_length_def)

lemma yesterday_props:
  assumes v: "valid_dt d" and o: "1 < toordinal d"
  shows "valid_dt (yesterday d)" and "Suc (toordinal (yesterday d)) = toordinal d"
    and "hour (yesterday d) = hour d" and "minute (yesterday d) = minute d"
    and "second (yesterday d) = second d"
proof -
  show "hour (yesterday d) = hour d" "minute (yesterday d) = minute d"
    "second (yesterday d) = second d"
    by (simp_all add: yesterday_def)
  from v have "1 \<le> day d" "1 \<le> month d" by (simp_all add: valid_dt_def)
  then consider "1 < day d" | "day d = 1" "1 < month d" | "day d = 1" "month d = 1"
    by linarith
  then have "valid_dt (yesterday d) \<and> Suc (toordinal (yesterday d)) = toordinal d"
  proof cases
    case 1
    with v show ?thesis by (auto simp: yesterday_def valid_dt_def toordinal_def)
  next
    case 2
    then obtain m where m: "month d = Suc m" "1 \<le> m" by (cases "month d") auto
    with 2 v days_in_month_ge [of "year d" m] show ?thesis
      by (simp add: yesterday_def valid_dt_def toordinal_def)
  next
    case 3
    with o have "0 < days_before_year (year d)" by (simp add: toordinal_def)
    then have "year d \<noteq> 1" by (auto simp: days_before_year_def)
    with v obtain y where y: "year d = Suc y" "1 \<le> y" by (cases "year d") (auto simp: valid_dt_def)
    have "days_before_year (Suc y) = days_before_year y + days_before_month y 12 + 31"
      using y(2) by (simp add: days_before_year_Suc days_before_month_12 [symmetric])
    with 3 y v show ?thesis
      by (simp add: yesterday_def valid_dt_def toordinal_def days_in_month_def)
  qed
  then show "valid_dt (yesterday d)" "Suc (toordinal (yesterday d)) = toordinal d" by simp_all
qed

lemma minus_48h_props:
  assumes v: "valid_dt d" and r: "minus_48h d = Inr t"
  shows "valid_dt t" and "instant t + 172800 = instant d"
proof -
  from r have o: "2 < toordinal d" and t: "t = yesterday (yesterday d)"
    by (auto simp: minus_48h_def split: if_splits)
  from o have o1: "1 < toordinal d" by simp
  note y1 = yesterday_props [OF v o1]
  from y1(2) o have o2: "1 < toordinal (yesterday d)" by simp
  note y2 = yesterday_props [OF y1(1) o2]
  show "valid_dt t" unfolding t by (rule y2(1))
  have "toordinal t + 2 = toordinal d" unfolding t using y1(2) y2(2) by simp
  then show "instant t + 172800 = instant d"
    unfolding t instant_def using y1(3-5) y2(3-5) by simp
qed

lemma wall_clock_ordinal: assumes "wall_clock now" shows "2 < toordinal now"
proof -
  from assms have v: "valid_dt now" and y: "2 \<le> year now" by (simp_all add: wall_clock_def)
  have "days_before_year 2 \<le> days_before_year (year now)"
    using y by (intro days_before_year_mono) simp_all
  moreover have "days_before_year 2 = 365" by (simp add: days_before_year_def)
  ultimately show ?thesis using toordinal_bounds(1) [OF v] by simp
qed

lemma wall_clock_minus_48h:
  assumes "wall_clock now"
  shows "minus_48h now = Inr (yesterday (yesterday now))"
  using wall_clock_ordinal [OF assms] by (simp add: minus_48h_def)

section \<open>Evaluating concrete datetimes\<close>

lemma digit_chars:
  "digit 0 = CHR ''0''" "digit 1 = CHR ''1''" "digit 2 = CHR ''2''" "digit 3 = CHR ''3''"
  "digit 4 = CHR ''4''" "digit 5 = CHR ''5''" "digit 6 = CHR ''6''" "digit 7 = CHR ''7''"
  "digit 8 = CHR ''8''" "digit 9 = CHR ''9''" "digit (Suc 0) = CHR ''1''"
  unfolding digit_def by (rule of_char_eqI [where ?'a = nat], simp)+

lemma zero_pad_2: "n < 100 \<Longrightarrow> zero_pad 2 n = [digit (n div 10), digit (n mod 10)]"
  using zero_pad_digits [of n 1] by (simp add: numeral_2_eq_2)

lemma zero_pad_4:
  "n < 10000 \<Longrightarrow>
   zero_pad 4 n = [digit (n div 1000), digit (n div 100 mod 10), digit (n div 10 mod 10), digit (n mod 10)]"
proof -
  assume n: "n < 10000"
  have "zero_pad (Suc 3) n = digits (Suc (Suc (Suc (Suc 0)))) n"
    using zero_pad_digits [of n 3] n by (simp add: numeral_3_eq_3)
  moreover from n have "n div 1000 < 10" by simp
  ultimately show ?thesis by (simp add: div_mult2_eq [symmetric])
qed

lemma decimal_4:
  assumes "1000 \<le> n" and "n < 10000"
  shows "decimal n =
     [digit (n div 1000), digit (n div 100 mod 10), digit (n div 10 mod 10), digit (n mod 10)]"
  by (simp only: decimal_zero_pad_4 [OF assms] zero_pad_4 [OF assms(2)])

lemma decimal_3:
  assumes "100 \<le> n" and "n < 1000"
  shows "decimal n = [digit (n div 100), digit (n div 10 mod 10), digit (n mod 10)]"
proof -
  from assms have a: "\<not> n < 10" and b: "\<not> n div 10 < 10" and c: "n div 10 div 10 < 10"
    by simp_all
  have "decimal n = decimal (n div 10) @ [digit (n mod 10)]"
    using a by (subst decimal.simps) simp
  also have "decimal (n div 10) = decimal (n div 10 div 10) @ [digit (n div 10 mod 10)]"
    using b by (subst decimal.simps) simp
  also have "decimal (n div 10 div 10) = [digit (n div 10 div 10)]"
    using c by (subst decimal.simps) simp
  finally show ?thesis by (simp add: div_mult2_eq [symmetric])
qed

lemma days_before_month_table:
  "days_before_month y 1 = 0"
  "days_before_month y 2 = 31"
  "days_before_month y 3 = 31 + days_in_month y 2"
  "days_before_month y 4 = 62 + days_in_month y 2"
  "days_before_month y 5 = 92 + days_in_month y 2"
  "days_before_month y 6 = 123 + days_in_month y 2"
  "days_before_month y 7 = 153 + days_in_month y 2"
  "days_before_month y 8 = 184 + days_in_month y 2"
  "days_before_month y 9 = 215 + days_in_month y 2"
  "days_before_month y 10 = 245 + days_in_month y 2"
  "days_before_month y 11 = 276 + days_in_month y 2"
  "days_before_month y 12 = 306 + days_in_month y 2"
  by (simp_all add: eval_nat_numeral days_in_month_def)

lemmas eval_dt = valid_dt_def wall_clock_def days_in_month_def is_leap_def instant_def
  toordinal_def days_before_year_def days_before_month_table yesterday_def
  strftime_def zero_pad_2 decimal_4 decimal_3 digit_chars is_timestamp_def

section \<open>The insert statement and the upsert loop\<close>

lemma py_float_Inr: "py_float v = Inr w \<longleftrightarrow> v \<noteq> PyNone \<and> w = v"
  by (cases v) auto

lemma py_float_Inl: "py_float v = Inl e \<longleftrightarrow> v = PyNone \<and> e = TypeError"
  by (cases v) auto

lemma execute_insert_stored:
  assumes "stored_form r = Some s"
  shows "execute_insert r d = Inr (put_row s d)"
proof -
  from assms obtain la lo where c: "latitude r = PyFloat la" "longitude r = PyFloat lo"
    and n: "temperature_2m r \<noteq> PyNone" "relative_humidity_2m r \<noteq> PyNone"
    and s: "s = \<lparr>timestamp = strftime (timestamp r),
                 temperature_2m = bind_real (temperature_2m r),
                 relative_humidity_2m = bind_real (relative_humidity_2m r),
                 latitude = la, longitude = lo\<rparr>"
    by (auto simp: stored_form_def split: pyval.splits if_splits)
  have t: "py_float (temperature_2m r) = Inr (temperature_2m r)"
    and h: "py_float (relative_humidity_2m r) = Inr (relative_humidity_2m r)"
    using n by (simp_all add: py_float_Inr)
  show ?thesis
    by (simp add: execute_insert_def t h c insert_or_replace_def put_row_def s Let_def)
qed

lemma execute_insert_not_stored:
  assumes "stored_form r = None"
  shows "execute_insert r d = Inl TypeError \<or> execute_insert r d = Inl IntegrityError"
  using assms
  by (cases "temperature_2m r"; cases "relative_humidity_2m r"; cases "latitude r";
      cases "longitude r")
     (simp_all add: stored_form_def execute_insert_def insert_or_replace_def)

lemma execute_insert_Inr:
  "execute_insert r d = Inr d' \<longleftrightarrow> (\<exists>s. stored_form r = Some s \<and> d' = put_row s d)"
proof (cases "stored_form r")
  case None
  with execute_insert_not_stored [OF None, of d] show ?thesis by auto
next
  case (Some s)
  then show ?thesis by (auto simp: execute_insert_stored)
qed

lemma upsert_loop_durable: "durable (snd (upsert_loop df n c)) = durable c"
  by (induction df arbitrary: n c) (auto split: sum.splits)

lemma upsert_loop_count: "upsert_loop df n c = (Inr m, c') \<Longrightarrow> m = n + length df"
proof (induction df arbitrary: n c)
  case Nil
  then show ?case by simp
next
  case (Cons r df)
  then obtain p where "execute_insert r (pending c) = Inr p"
    and "upsert_loop df (n + 1) (c\<lparr>pending := p\<rparr>) = (Inr m, c')"
    by (auto split: sum.splits)
  from Cons.IH [OF this(2)] show ?case by simp
qed

lemma upsert_loop_total:
  "list_all (\<lambda>r. stored_form r \<noteq> None) df \<Longrightarrow> \<exists>c'. upsert_loop df n c = (Inr (n + length df), c')"
proof (induction df arbitrary: n c)
  case Nil
  then show ?case by simp
next
  case (Cons r df)
  then obtain s where s: "stored_form r = Some s" by auto
  from Cons.prems have "list_all (\<lambda>r. stored_form r \<noteq> None) df" by simp
  from Cons.IH [OF this, of "n + 1" "c\<lparr>pending := put_row s (pending c)\<rparr>"]
  show ?case by (simp add: execute_insert_stored [OF s])
qed

lemma upsert_loop_failing:
  "\<not> list_all (\<lambda>r. stored_form r \<noteq> None) df \<Longrightarrow> \<exists>e c'. upsert_loop df n c = (Inl e, c')"
proof (induction df arbitrary: n c)
  case Nil
  then show ?case by simp
next
  case (Cons r df)
  show ?case
  proof (cases "stored_form r")
    case None
    with execute_insert_not_stored [OF None, of "pending c"] show ?thesis by auto
  next
    case (Some s)
    with Cons.prems have "\<not> list_all (\<lambda>r. stored_form r \<noteq> None) df" by simp
    from Cons.IH [OF this, of "n + 1" "c\<lparr>pending := put_row s (pending c)\<rparr>"]
    show ?thesis by (simp add: execute_insert_stored [OF Some])
  qed
qed

lemma upsert_records_failure:
  assumes "fst (upsert_records df d) = Inl e"
  shows "snd (upsert_records df d) = d"
proof -
  obtain res c where l: "upsert_loop df 0 (get_conn d) = (res, c)" by (cases "upsert_loop df 0 (get_conn d)")
  have "durable c = d"
    using upsert_loop_durable [of df 0 "get_conn d"] l by (simp add: get_conn_def)
  with assms l show ?thesis
    by (cases res) (simp_all add: upsert_records_def rollback_def commit_def)
qed

lemma upsert_records_single:
  assumes "stored_form m = Some s"
  shows "upsert_records [m] d = (Inr 1, put_row s d)"
  by (simp add: upsert_records_def execute_insert_stored [OF assms] get_conn_def commit_def)

lemma put_row_key:
  "filter (\<lambda>w. row_key (cols w) = row_key s) (weather (put_row s d)) =
     [\<lparr>rowid = Suc (fold max (map rowid (weather d)) (sqlite_sequence d)), cols = s\<rparr>]"
  by (simp add: put_row_def Let_def)

lemma put_row_other:
  "k \<noteq> row_key s \<Longrightarrow>
   filter (\<lambda>w. row_key (cols w) = k) (weather (put_row s d)) =
   filter (\<lambda>w. row_key (cols w) = k) (weather d)"
  by (auto simp: put_row_def Let_def intro: filter_cong)

lemma put_row_unique: "unique_keys d \<Longrightarrow> unique_keys (put_row s d)"
  by (auto simp: unique_keys_def put_row_def Let_def distinct_map_filter)

lemma upsert_loop_unique:
  "unique_keys (pending c) \<Longrightarrow> unique_keys (pending (snd (upsert_loop df n c)))"
proof (induction df arbitrary: n c)
  case Nil
  then show ?case by simp
next
  case (Cons r df)
  show ?case
  proof (cases "execute_insert r (pending c)")
    case (Inl e)
    with Cons.prems show ?thesis by simp
  next
    case (Inr p)
    then obtain s where "p = put_row s (pending c)" by (auto simp: execute_insert_Inr)
    with Cons.prems have "unique_keys (pending (c\<lparr>pending := p\<rparr>))" by (simp add: put_row_unique)
    from Cons.IH [OF this] Inr show ?thesis by simp
  qed
qed

lemma upsert_records_unique:
  assumes "unique_keys d"
  shows "unique_keys (snd (upsert_records df d))"
proof -
  obtain res c where l: "upsert_loop df 0 (get_conn d) = (res, c)" by (cases "upsert_loop df 0 (get_conn d)")
  have du: "durable c = d"
    using upsert_loop_durable [of df 0 "get_conn d"] l by (simp add: get_conn_def)
  have "unique_keys (pending c)"
    using upsert_loop_unique [of "get_conn d" df 0] l assms by (simp add: get_conn_def)
  with du assms l show ?thesis
    by (cases res) (simp_all add: upsert_records_def rollback_def commit_def)
qed

lemmas ex_defs = ex_noon_def ex_row_def ex_row_again_def ex_row_null_def ex_stored_def

lemma ex_row_stored: "stored_form ex_row = Some ex_stored"
  by (simp add: stored_form_def ex_defs eval_dt)

lemma ex_row_again_stored:
  "stored_form ex_row_again =
     Some (ex_stored\<lparr>temperature_2m := Some 22, relative_humidity_2m := Some 38\<rparr>)"
  by (simp add: stored_form_def ex_defs eval_dt)

lemma ex_row_null_stored: "stored_form ex_row_null = None"
  by (simp add: stored_form_def ex_defs)

section \<open>The query and the fetch\<close>

lemma wall_clock_ex_now: "wall_clock ex_now"
  by (simp add: ex_now_def eval_dt)

lemma query_wall_clock:
  assumes "wall_clock now"
  shows "query_last_48h now d =
     Inr (map cols (sort_key (\<lambda>r. timestamp (cols r))
       (filter (\<lambda>r. strftime (yesterday (yesterday now)) \<le> timestamp (cols r)) (weather d))))"
  by (simp add: query_last_48h_def wall_clock_minus_48h [OF assms])

lemma cutoff_props:
  assumes "wall_clock now"
  shows "valid_dt (yesterday (yesterday now))"
    and "instant (yesterday (yesterday now)) + 172800 = instant now"
proof -
  from assms have v: "valid_dt now" by (simp add: wall_clock_def)
  from minus_48h_props [OF v wall_clock_minus_48h [OF assms]]
  show "valid_dt (yesterday (yesterday now))"
    and "instant (yesterday (yesterday now)) + 172800 = instant now" by simp_all
qed

lemma year_yesterday: "year d - 1 \<le> year (yesterday d)"
  by (simp add: yesterday_def)

lemma cutoff_is_timestamp:
  assumes "wall_clock now"
  shows "is_timestamp (yesterday (yesterday now))"
proof -
  from assms have "1970 \<le> year now" by (simp add: wall_clock_def)
  with year_yesterday [of now] year_yesterday [of "yesterday now"]
  have "1000 \<le> year (yesterday (yesterday now))" by simp
  with cutoff_props(1) [OF assms] show ?thesis by (simp add: is_timestamp_def)
qed

lemma cutoff_le_iff:
  assumes "wall_clock now" "is_timestamp t"
  shows "strftime (yesterday (yesterday now)) \<le> strftime t \<longleftrightarrow> instant now \<le> instant t + 172800"
  using cutoff_props [OF assms(1)] strftime_le_instant [OF cutoff_is_timestamp [OF assms(1)] assms(2)]
  by auto

lemma window_is_timestamp:
  assumes "wall_clock now" and "valid_dt t" and "instant now \<le> instant t + 172800"
  shows "is_timestamp t"
proof -
  let ?c = "yesterday (yesterday now)"
  have c: "is_timestamp ?c" by (rule cutoff_is_timestamp [OF assms(1)])
  then have vc: "valid_dt ?c" and yc: "1000 \<le> year ?c" by (simp_all add: is_timestamp_def)
  have "\<not> year t < year ?c"
  proof
    assume "year t < year ?c"
    then have "civil_fields t < civil_fields ?c" by (simp add: civil_fields_def)
    from instant_mono_strict [OF assms(2) vc this] cutoff_props(2) [OF assms(1)] assms(3)
    show False by simp
  qed
  with yc assms(2) show ?thesis by (simp add: is_timestamp_def)
qed

lemma ex_row_forecast_stored:
  "stored_form ex_row_forecast =
     Some (ex_stored\<lparr>timestamp := ''2025-06-02T12:00:00Z'', temperature_2m := Some 25\<rparr>)"
  by (simp add: stored_form_def ex_row_forecast_def ex_defs eval_dt)

lemma ex_row_old_stored:
  "stored_form ex_row_old =
     Some (ex_stored\<lparr>timestamp := ''2025-05-30T12:00:00Z'', temperature_2m := Some 17\<rparr>)"
  by (simp add: stored_form_def ex_row_old_def ex_defs eval_dt)

lemma ex_db_rows:
  "map cols (weather ex_db) =
     [ex_stored\<lparr>timestamp := ''2025-06-02T12:00:00Z'', temperature_2m := Some 25\<rparr>,
      ex_stored\<lparr>timestamp := ''2025-05-30T12:00:00Z'', temperature_2m := Some 17\<rparr>,
      ex_stored]"
  by (simp add: ex_db_def upsert_records_def execute_insert_stored ex_row_stored
      ex_row_forecast_stored ex_row_old_stored put_row_def get_conn_def commit_def init_db_def
      row_key_def ex_stored_def)

lemma ex_cutoff: "strftime (yesterday (yesterday ex_now)) = ''2025-05-30T12:30:00Z''"
  by (simp add: ex_now_def eval_dt)

lemma map_insort_key: "map g (insort_key (\<lambda>x. f (g x)) x xs) = insort_key f (g x) (map g xs)"
  by (induction xs) simp_all

lemma map_sort_key: "map g (sort_key (\<lambda>x. f (g x)) xs) = sort_key f (map g xs)"
  by (induction xs) (simp_all add: map_insort_key)

lemma ex_query:
  "query_last_48h ex_now ex_db =
     Inr [ex_stored, ex_stored\<lparr>timestamp := ''2025-06-02T12:00:00Z'', temperature_2m := Some 25\<rparr>]"
proof -
  have "map cols (sort_key (\<lambda>r. timestamp (cols r))
          (filter (\<lambda>r. ''2025-05-30T12:30:00Z'' \<le> timestamp (cols r)) (weather ex_db)))
        = sort_key timestamp (filter (\<lambda>r. ''2025-05-30T12:30:00Z'' \<le> timestamp r) (map cols (weather ex_db)))"
    by (simp add: map_sort_key filter_map comp_def)
  also have "\<dots> = [ex_stored, ex_stored\<lparr>timestamp := ''2025-06-02T12:00:00Z'', temperature_2m := Some 25\<rparr>]"
    unfolding ex_db_rows by (simp add: ex_stored_def)
  finally show ?thesis
    by (simp add: query_wall_clock [OF wall_clock_ex_now] ex_cutoff)
qed

lemma to_datetime_length: "to_datetime parse ss = Inr ts \<Longrightarrow> length ts = length ss"
  by (induction ss arbitrary: ts) (auto split: option.splits sum.splits)

lemma to_datetime_error: "to_datetime parse ss = Inl e \<Longrightarrow> \<exists>msg. e = ValueError msg"
  by (induction ss) (auto split: option.splits sum.splits)

lemma fetch_misaligned:
  assumes "\<not> (400 \<le> code \<and> code < 600)"
    and "length (get_or_empty (temperature_2m_key h)) < length (get_or_empty (time_key h))"
  shows "\<exists>msg. fetch_open_meteo parse (Response code (Json (Some h))) lat lon = Inl (ValueError msg)"
proof (cases "to_datetime parse (get_or_empty (time_key h))")
  case (Inl e)
  with to_datetime_error [OF Inl] assms show ?thesis
    by (auto simp: fetch_open_meteo_def Let_def)
next
  case (Inr ts)
  with to_datetime_length [OF Inr] assms show ?thesis
    by (auto simp: fetch_open_meteo_def Let_def)
qed

lemma map_instant_rows:
  "map (\<lambda>row. instant (timestamp row))
     (map (\<lambda>(t, temp, hum). \<lparr>timestamp = t, temperature_2m = temp, relative_humidity_2m = hum,
                              latitude = la, longitude = lo\<rparr>) xs)
   = map (\<lambda>(t, temp, hum). instant t) xs"
  by (induction xs) auto

lemma fetch_HTTPError:
  "fetch_open_meteo parse r lat lon = Inl (HTTPError c) \<longleftrightarrow>
     (\<exists>b. r = Response c b) \<and> 400 \<le> c \<and> c < 600"
proof (cases r)
  case TimedOut
  then show ?thesis by (simp add: fetch_open_meteo_def)
next
  case Unreachable
  then show ?thesis by (simp add: fetch_open_meteo_def)
next
  case (Response code b)
  show ?thesis
  proof (cases "400 \<le> code \<and> code < 600")
    case True
    with Response show ?thesis by (auto simp: fetch_open_meteo_def)
  next
    case False
    have "fetch_open_meteo parse (Response code b) lat lon \<noteq> Inl (HTTPError c)"
      using False
      by (auto simp: fetch_open_meteo_def Let_def py_float_Inl
          split: body.splits sum.splits dest: to_datetime_error)
    with False Response show ?thesis by auto
  qed
qed

lemma upsert_loop_error:
  "upsert_loop df n c = (Inl e, c') \<Longrightarrow> e = TypeError \<or> e = IntegrityError"
proof (induction df arbitrary: n c)
  case Nil
  then show ?case by simp
next
  case (Cons r df)
  show ?case
  proof (cases "stored_form r")
    case None
    with execute_insert_not_stored [OF None, of "pending c"] Cons.prems show ?thesis by auto
  next
    case (Some s)
    with Cons.prems have "upsert_loop df (n + 1) (c\<lparr>pending := put_row s (pending c)\<rparr>) = (Inl e, c')"
      by (simp add: execute_insert_stored [OF Some])
    then show ?thesis by (rule Cons.IH)
  qed
qed

lemma upsert_records_error:
  assumes "upsert_records df d = (Inl e, d')"
  shows "e = TypeError \<or> e = IntegrityError"
proof -
  obtain res c where l: "upsert_loop df 0 (get_conn d) = (res, c)"
    by (cases "upsert_loop df 0 (get_conn d)")
  with assms have "res = Inl e" by (cases res) (simp_all add: upsert_records_def)
  with l show ?thesis by (auto dest: upsert_loop_error)
qed

lemma report_body_HTTPError:
  assumes "report_body parse r lat lon d = (Inl (HTTPError c), d')"
  shows "(\<exists>b. r = Response c b) \<and> 400 \<le> c \<and> c < 600"
proof (cases "fetch_open_meteo parse r lat lon")
  case (Inl e)
  with assms have "fetch_open_meteo parse r lat lon = Inl (HTTPError c)"
    by (simp add: report_body_def)
  then show ?thesis by (simp add: fetch_HTTPError)
next
  case (Inr df)
  obtain res d1 where u: "upsert_records df d = (res, d1)" by (cases "upsert_records df d")
  show ?thesis
  proof (cases res)
    case (Inl e)
    with assms Inr u have "e = HTTPError c" by (simp add: report_body_def)
    with upsert_records_error [of df d e d1] u Inl show ?thesis by auto
  next
    case (Inr n)
    with assms \<open>fetch_open_meteo parse r lat lon = Inr df\<close> u have False
      by (auto simp: report_body_def strftime_nat_def split: sum.splits option.splits)
    then show ?thesis ..
  qed
qed





lemma ex_db_weather:
  "ex_db =
     \<lparr>weather =
        [\<lparr>rowid = 1, cols = ex_stored\<lparr>timestamp := ''2025-06-02T12:00:00Z'', temperature_2m := Some 25\<rparr>\<rparr>,
         \<lparr>rowid = 2, cols = ex_stored\<lparr>timestamp := ''2025-05-30T12:00:00Z'', temperature_2m := Some 17\<rparr>\<rparr>,
         \<lparr>rowid = 3, cols = ex_stored\<rparr>],
      sqlite_sequence = 3\<rparr>"
  by (simp add: ex_db_def upsert_records_def execute_insert_stored ex_row_stored
      ex_row_forecast_stored ex_row_old_stored put_row_def get_conn_def commit_def init_db_def
      row_key_def ex_stored_def)

lemma upsert_loop_fold:
  "upsert_loop df n c = (Inr m, c') \<Longrightarrow>
   \<exists>ss. map stored_form df = map Some ss \<and> pending c' = fold put_row ss (pending c)"
proof (induction df arbitrary: n c)
  case Nil
  then show ?case by simp
next
  case (Cons r df)
  then obtain p where e: "execute_insert r (pending c) = Inr p"
    and l: "upsert_loop df (n + 1) (c\<lparr>pending := p\<rparr>) = (Inr m, c')"
    by (auto split: sum.splits)
  from e obtain s where s: "stored_form r = Some s" "p = put_row s (pending c)"
    by (auto simp: execute_insert_Inr)
  from Cons.IH [OF l] obtain ss where "map stored_form df = map Some ss"
    and "pending c' = fold put_row ss (pending (c\<lparr>pending := p\<rparr>))"
    by blast
  with s have "map stored_form (r # df) = map Some (s # ss) \<and>
      pending c' = fold put_row (s # ss) (pending c)"
    by simp
  then show ?case by blast
qed

lemma upsert_records_Inr:
  assumes "upsert_records df d = (Inr n, d')"
  shows "n = length df \<and> (\<exists>ss. map stored_form df = map Some ss \<and> d' = fold put_row ss d)"
proof -
  obtain res c where l: "upsert_loop df 0 (get_conn d) = (res, c)"
    by (cases "upsert_loop df 0 (get_conn d)")
  with assms have r: "res = Inr n" and d': "d' = pending c"
    by (cases res; simp add: upsert_records_def commit_def)+
  from l r upsert_loop_count [of df 0 "get_conn d" n c] have "n = length df" by simp
  moreover from upsert_loop_fold [of df 0 "get_conn d" n c] l r d'
  have "\<exists>ss. map stored_form df = map Some ss \<and> d' = fold put_row ss d"
    by (simp add: get_conn_def)
  ultimately show ?thesis by simp
qed

lemma fold_put_row_key:
  "s \<in> set ss \<Longrightarrow>
   map cols (filter (\<lambda>w. row_key (cols w) = row_key s) (weather (fold put_row ss d))) =
     [last (filter (\<lambda>x. row_key x = row_key s) ss)]"
proof (induction ss rule: rev_induct)
  case Nil
  then show ?case by simp
next
  case (snoc x xs)
  show ?case
  proof (cases "row_key x = row_key s")
    case True
    then show ?thesis using put_row_key [of x "fold put_row xs d"] by simp
  next
    case False
    with snoc.prems have "s \<in> set xs" by auto
    from snoc.IH [OF this] False put_row_other [of "row_key s" x "fold put_row xs d"]
    show ?thesis by auto
  qed
qed

section \<open>The stored timestamp text\<close>




section \<open>The upsert\<close>

text \<open>
  Claim C7. Whenever \<open>upsert_records\<close> returns, it returns the number of rows of its
  input frame, and it has processed every one of them: each row was converted, and the
  database is the result of running the insert statement for the rows in their order,
  so that for every key of the frame the table holds one row, with the values of the
  last frame row of that key. It returns whenever every row converts and has numeric
  coordinates. The count does not depend on how many stored rows changed value.
\<close>

theorem upsert_records_count:
  "(\<forall>n d'. upsert_records df d = (Inr n, d') \<longrightarrow>
      n = length df \<and>
      (\<exists>ss. map stored_form df = map Some ss \<and> d' = fold put_row ss d \<and>
         (\<forall>s\<in>set ss.
            map cols (filter (\<lambda>w. row_key (cols w) = row_key s) (weather d')) =
              [last (filter (\<lambda>x. row_key x = row_key s) ss)]))) \<and>
   (list_all (\<lambda>r. stored_form r \<noteq> None) df \<longrightarrow> fst (upsert_records df d) = Inr (length df))"
proof (intro conjI allI impI)
  fix n d'
  assume r: "upsert_records df d = (Inr n, d')"
  from upsert_records_Inr [OF r] show "n = length df" by simp
  from upsert_records_Inr [OF r] obtain ss
    where ss: "map stored_form df = map Some ss" "d' = fold put_row ss d" by blast
  have "\<forall>s\<in>set ss.
      map cols (filter (\<lambda>w. row_key (cols w) = row_key s) (weather d')) =
        [last (filter (\<lambda>x. row_key x = row_key s) ss)]"
    unfolding ss(2) by (auto intro: fold_put_row_key)
  with ss show "\<exists>ss. map stored_form df = map Some ss \<and> d' = fold put_row ss d \<and>
         (\<forall>s\<in>set ss.
            map cols (filter (\<lambda>w. row_key (cols w) = row_key s) (weather d')) =
              [last (filter (\<lambda>x. row_key x = row_key s) ss)])"
    by blast
next
  assume "list_all (\<lambda>r. stored_form r \<noteq> None) df"
  from upsert_loop_total [OF this, of 0 "get_conn d"]
  show "fst (upsert_records df d) = Inr (length df)"
    by (auto simp: upsert_records_def)
qed

theorem upsert_records_count_witness:
  "list_all (\<lambda>r. stored_form r \<noteq> None) [ex_row_old, ex_row, ex_row_again] \<and>
   upsert_records [ex_row_old, ex_row, ex_row_again] ex_db =
     (Inr 3,
      \<lparr>weather =
         [\<lparr>rowid = 1, cols = ex_stored\<lparr>timestamp := ''2025-06-02T12:00:00Z'', temperature_2m := Some 25\<rparr>\<rparr>,
          \<lparr>rowid = 4, cols = ex_stored\<lparr>timestamp := ''2025-05-30T12:00:00Z'', temperature_2m := Some 17\<rparr>\<rparr>,
          \<lparr>rowid = 6, cols = ex_stored\<lparr>temperature_2m := Some 22, relative_humidity_2m := Some 38\<rparr>\<rparr>],
       sqlite_sequence = 6\<rparr>)"
proof -
  let ?df = "[ex_row_old, ex_row, ex_row_again]"
  let ?d' = "\<lparr>weather =
         [\<lparr>rowid = 1, cols = ex_stored\<lparr>timestamp := ''2025-06-02T12:00:00Z'', temperature_2m := Some 25\<rparr>\<rparr>,
          \<lparr>rowid = 4, cols = ex_stored\<lparr>timestamp := ''2025-05-30T12:00:00Z'', temperature_2m := Some 17\<rparr>\<rparr>,
          \<lparr>rowid = 6, cols = ex_stored\<lparr>temperature_2m := Some 22, relative_humidity_2m := Some 38\<rparr>\<rparr>],
       sqlite_sequence = 6\<rparr>"
  have h: "list_all (\<lambda>r. stored_form r \<noteq> None) ?df"
    by (simp add: ex_row_stored ex_row_again_stored ex_row_old_stored)
  from upsert_records_count [of ?df ex_db] h
  have n: "fst (upsert_records ?df ex_db) = Inr 3" by simp
  have "snd (upsert_records ?df ex_db) = ?d'"
    by (simp add: upsert_records_def execute_insert_stored ex_row_stored ex_row_again_stored
        ex_row_old_stored ex_db_weather put_row_def get_conn_def commit_def row_key_def ex_stored_def)
  with n have "upsert_records ?df ex_db = (Inr 3, ?d')"
    by (metis prod.collapse)
  with h show ?thesis by simp
qed

text \<open>
  Claim C9. The batch is all or nothing: when \<open>upsert_records\<close> raises, the connection
  rolls the pending inserts back and the database file is what it was before the call.
  It raises exactly when some row of the frame cannot be written.
\<close>

theorem upsert_records_all_or_nothing:
  "(fst (upsert_records df d) = Inl e \<longrightarrow> snd (upsert_records df d) = d) \<and>
   ((\<exists>x. fst (upsert_records df d) = Inl x) \<longleftrightarrow> (\<exists>r\<in>set df. stored_form r = None))"
proof (intro conjI impI)
  assume "fst (upsert_records df d) = Inl e"
  then show "snd (upsert_records df d) = d" by (rule upsert_records_failure)
next
  show "(\<exists>x. fst (upsert_records df d) = Inl x) \<longleftrightarrow> (\<exists>r\<in>set df. stored_form r = None)"
  proof (cases "list_all (\<lambda>r. stored_form r \<noteq> None) df")
    case True
    from upsert_loop_total [OF True, of 0 "get_conn d"] True show ?thesis
      by (auto simp: upsert_records_def list_all_iff)
  next
    case False
    from upsert_loop_failing [OF False, of 0 "get_conn d"] False show ?thesis
      by (auto simp: upsert_records_def list_all_iff)
  qed
qed

theorem upsert_records_all_or_nothing_witness:
  "fst (upsert_records [ex_row, ex_row_null] (init_db None)) = Inl TypeError \<and>
   map cols (weather (pending (snd (upsert_loop [ex_row, ex_row_null] 0 (get_conn (init_db None))))))
     = [ex_stored] \<and>
   snd (upsert_records [ex_row, ex_row_null] (init_db None)) = init_db None"
proof -
  let ?df = "[ex_row, ex_row_null]"
  have e: "execute_insert ex_row_null d = Inl TypeError" for d
    by (simp add: execute_insert_def ex_row_null_def)
  have f: "fst (upsert_records ?df (init_db None)) = Inl TypeError"
    by (simp add: upsert_records_def execute_insert_stored ex_row_stored e)
  have p: "map cols (weather (pending (snd (upsert_loop ?df 0 (get_conn (init_db None)))))) = [ex_stored]"
    by (simp add: execute_insert_stored ex_row_stored e put_row_def get_conn_def init_db_def)
  from upsert_records_all_or_nothing [of ?df "init_db None" TypeError] f
  have "snd (upsert_records ?df (init_db None)) = init_db None" by simp
  with f p show ?thesis by simp
qed

section \<open>The window query\<close>

text \<open>
  Claim C1, as stated, fails: the statement of \<open>query_last_48h\<close> has a lower bound only,
  so a stored row later than the clock (the upstream answer holds forecast hours) is
  returned. In the example the clock reads 2025-06-01 12:30, the table holds rows for
  2025-05-30 12:00, 2025-06-01 12:00 and 2025-06-02 12:00, and the query returns the last
  two.
\<close>

theorem query_window_counterexample:
  "query_last_48h ex_now ex_db =
     Inr [ex_stored, ex_stored\<lparr>timestamp := strftime (timestamp ex_row_forecast), temperature_2m := Some 25\<rparr>] \<and>
   instant ex_now < instant (timestamp ex_row_forecast) \<and>
   strftime ex_now < strftime (timestamp ex_row_forecast)"
proof -
  have f: "strftime (timestamp ex_row_forecast) = ''2025-06-02T12:00:00Z''"
    by (simp add: ex_row_forecast_def ex_defs eval_dt)
  have "instant ex_now < instant (timestamp ex_row_forecast)"
    by (simp add: ex_row_forecast_def ex_now_def ex_defs eval_dt)
  moreover have "strftime ex_now < strftime (timestamp ex_row_forecast)"
    unfolding f by (simp add: ex_now_def eval_dt)
  ultimately show ?thesis by (simp add: ex_query f)
qed

text \<open>
  Claim C1, amended. For every table and every reading of the clock, \<open>query_last_48h\<close>
  returns exactly the stored rows whose timestamp text is not below the text of the
  cutoff, ascending by timestamp; the cutoff is the clock minus 48 hours, and for a
  timestamp written from a datetime with a four-digit year the comparison of the texts
  is the comparison of the instants. There is no upper bound.
\<close>

theorem query_last_48h_window:
  assumes "wall_clock now"
  shows "\<exists>c rows. minus_48h now = Inr c \<and> valid_dt c \<and> instant c + 172800 = instant now \<and>
           query_last_48h now d = Inr rows \<and>
           sorted (map timestamp rows) \<and>
           mset rows = mset (filter (\<lambda>r. strftime c \<le> timestamp r) (map cols (weather d))) \<and>
           (\<forall>t. is_timestamp t \<longrightarrow>
              (strftime c \<le> strftime t \<longleftrightarrow> instant now \<le> instant t + 172800))"
proof (intro exI conjI allI impI)
  let ?c = "yesterday (yesterday now)"
  let ?rows = "map cols (sort_key (\<lambda>r. timestamp (cols r))
       (filter (\<lambda>r. strftime ?c \<le> timestamp (cols r)) (weather d)))"
  show "minus_48h now = Inr ?c" by (rule wall_clock_minus_48h [OF assms])
  show "valid_dt ?c" "instant ?c + 172800 = instant now"
    by (rule cutoff_props [OF assms])+
  show "query_last_48h now d = Inr ?rows" by (rule query_wall_clock [OF assms])
  have "map timestamp ?rows = map (\<lambda>r. timestamp (cols r)) (sort_key (\<lambda>r. timestamp (cols r))
       (filter (\<lambda>r. strftime ?c \<le> timestamp (cols r)) (weather d)))"
    by simp
  then show "sorted (map timestamp ?rows)" by (simp only: sorted_sort_key)
  show "mset ?rows = mset (filter (\<lambda>r. strftime ?c \<le> timestamp r) (map cols (weather d)))"
    by (simp add: filter_map comp_def)
  fix t assume "is_timestamp t"
  then show "strftime ?c \<le> strftime t \<longleftrightarrow> instant now \<le> instant t + 172800"
    by (rule cutoff_le_iff [OF assms])
qed

theorem query_last_48h_window_witness:
  "wall_clock ex_now \<and>
   minus_48h ex_now = Inr (ex_now\<lparr>month := 5, day := 30\<rparr>) \<and>
   query_last_48h ex_now ex_db =
     Inr [ex_stored, ex_stored\<lparr>timestamp := ''2025-06-02T12:00:00Z'', temperature_2m := Some 25\<rparr>] \<and>
   sorted [timestamp ex_stored, ''2025-06-02T12:00:00Z'']"
proof -
  have c: "minus_48h ex_now = Inr (ex_now\<lparr>month := 5, day := 30\<rparr>)"
    by (simp add: wall_clock_minus_48h [OF wall_clock_ex_now]) (simp add: ex_now_def eval_dt)
  from query_last_48h_window [OF wall_clock_ex_now, of ex_db]
  have "sorted [timestamp ex_stored, ''2025-06-02T12:00:00Z'']"
    unfolding ex_query by auto
  with wall_clock_ex_now c ex_query show ?thesis by simp
qed

text \<open>
  Claim C5. On an empty table the query returns the empty frame, and whenever the frame
  is empty both export routes answer with status 400 and the error message, not with
  an attachment.
\<close>

theorem empty_store_behaviour:
  assumes "wall_clock now"
  shows "(weather d = [] \<longrightarrow> query_last_48h now d = Inr []) \<and>
         (query_last_48h now d = Inr [] \<longrightarrow>
            export_excel now d = (ErrorMessage ''No data available. Call /weather-report first.'', 400) \<and>
            export_pdf now d = (ErrorMessage ''No data available. Call /weather-report first.'', 400))"
  by (simp add: query_wall_clock [OF assms] export_excel_def export_pdf_def)

theorem empty_store_behaviour_witness:
  "wall_clock ex_now \<and> weather (init_db None) = [] \<and>
   query_last_48h ex_now (init_db None) = Inr [] \<and>
   export_excel ex_now (init_db None) =
     (ErrorMessage ''No data available. Call /weather-report first.'', 400) \<and>
   export_pdf ex_now (init_db None) =
     (ErrorMessage ''No data available. Call /weather-report first.'', 400)"
proof -
  have e: "weather (init_db None) = []" by (simp add: init_db_def)
  from empty_store_behaviour [OF wall_clock_ex_now, of "init_db None"] e wall_clock_ex_now
  show ?thesis by simp
qed

section \<open>Upsert and query together\<close>

text \<open>
  Claim C2. Upserting two measurements with the same key (timestamp, latitude,
  longitude) one after the other, into any database, leaves exactly one row with that
  key, and it is the row of the second upsert; every upsert preserves the uniqueness of
  the keys.
\<close>

theorem upsert_last_write_wins:
  assumes "stored_form m1 = Some s1" and "stored_form m2 = Some s2" and "row_key s1 = row_key s2"
  shows "(\<exists>d1 d2 i. upsert_records [m1] d = (Inr 1, d1) \<and> upsert_records [m2] d1 = (Inr 1, d2) \<and>
            filter (\<lambda>w. row_key (cols w) = row_key s2) (weather d2) = [\<lparr>rowid = i, cols = s2\<rparr>]) \<and>
         (\<forall>df d0. unique_keys d0 \<longrightarrow> unique_keys (snd (upsert_records df d0)))"
proof (intro conjI allI impI)
  show "\<exists>d1 d2 i. upsert_records [m1] d = (Inr 1, d1) \<and> upsert_records [m2] d1 = (Inr 1, d2) \<and>
            filter (\<lambda>w. row_key (cols w) = row_key s2) (weather d2) = [\<lparr>rowid = i, cols = s2\<rparr>]"
    using upsert_records_single [OF assms(1), of d]
      upsert_records_single [OF assms(2), of "put_row s1 d"]
      put_row_key [of s2 "put_row s1 d"]
    by blast
next
  fix df d0
  assume "unique_keys d0"
  then show "unique_keys (snd (upsert_records df d0))" by (rule upsert_records_unique)
qed

theorem upsert_last_write_wins_witness:
  "stored_form ex_row = Some ex_stored \<and>
   stored_form ex_row_again =
     Some (ex_stored\<lparr>temperature_2m := Some 22, relative_humidity_2m := Some 38\<rparr>) \<and>
   row_key ex_stored = row_key (ex_stored\<lparr>temperature_2m := Some 22, relative_humidity_2m := Some 38\<rparr>) \<and>
   unique_keys (init_db None) \<and>
   unique_keys (snd (upsert_records [ex_row, ex_row_again] (init_db None))) \<and>
   map cols (weather (snd (upsert_records [ex_row_again] (snd (upsert_records [ex_row] (init_db None))))))
     = [ex_stored\<lparr>temperature_2m := Some 22, relative_humidity_2m := Some 38\<rparr>]"
proof -
  let ?s2 = "ex_stored\<lparr>temperature_2m := Some 22, relative_humidity_2m := Some 38\<rparr>"
  have k: "row_key ex_stored = row_key ?s2" by (simp add: row_key_def)
  have u0: "unique_keys (init_db None)" by (simp add: unique_keys_def init_db_def)
  from upsert_last_write_wins [OF ex_row_stored ex_row_again_stored k, of "init_db None"] u0
  have u: "unique_keys (snd (upsert_records [ex_row, ex_row_again] (init_db None)))"
    by blast
  have "map cols (weather (snd (upsert_records [ex_row_again] (snd (upsert_records [ex_row] (init_db None))))))
     = [?s2]"
    by (simp add: upsert_records_single [OF ex_row_stored] upsert_records_single [OF ex_row_again_stored]
        put_row_def init_db_def row_key_def ex_stored_def)
  with ex_row_stored ex_row_again_stored k u0 u show ?thesis by simp
qed

text \<open>
  Claim C6. A measurement with numeric cells whose instant is not before the clock minus
  48 hours, upserted and then queried, comes back as exactly one row with its key, and
  this row holds the temperature, the humidity and the coordinates that were upserted.
\<close>

theorem upsert_query_round_trip:
  assumes "wall_clock now" and "valid_dt (timestamp m)"
    and "instant now \<le> instant (timestamp m) + 172800"
    and "temperature_2m m = PyFloat t" and "relative_humidity_2m m = PyFloat h"
    and "latitude m = PyFloat la" and "longitude m = PyFloat lo"
  shows "\<exists>d' rows. upsert_records [m] d = (Inr 1, d') \<and> query_last_48h now d' = Inr rows \<and>
           filter (\<lambda>r. row_key r = (strftime (timestamp m), la, lo)) rows =
             [\<lparr>timestamp = strftime (timestamp m), temperature_2m = Some t,
               relative_humidity_2m = Some h, latitude = la, longitude = lo\<rparr>]"
proof -
  let ?s = "\<lparr>timestamp = strftime (timestamp m), temperature_2m = Some t,
             relative_humidity_2m = Some h, latitude = la, longitude = lo\<rparr>"
  let ?c = "strftime (yesterday (yesterday now))"
  let ?K = "\<lambda>r. timestamp (cols r)"
  let ?W = "weather (put_row ?s d)"
  let ?new = "\<lparr>rowid = Suc (fold max (map rowid (weather d)) (sqlite_sequence d)), cols = ?s\<rparr>"
  have s: "stored_form m = Some ?s"
    using assms(4-7) by (simp add: stored_form_def)
  have k: "row_key ?s = (strftime (timestamp m), la, lo)"
    by (simp add: row_key_def)
  have inwin: "?c \<le> timestamp ?s"
    using cutoff_le_iff [OF assms(1) window_is_timestamp [OF assms(1-3)]] assms(3) by simp
  have "filter (\<lambda>r. row_key r = row_key ?s)
          (map cols (sort_key ?K (filter (\<lambda>r. ?c \<le> ?K r) ?W)))
        = map cols (sort_key ?K (filter (\<lambda>r. ?c \<le> ?K r)
            (filter (\<lambda>w. row_key (cols w) = row_key ?s) ?W)))"
    by (simp add: filter_map comp_def filter_sort conj_commute)
  also have "\<dots> = map cols (sort_key ?K (filter (\<lambda>r. ?c \<le> ?K r) [?new]))"
    by (simp only: put_row_key)
  also have "\<dots> = [?s]"
    using inwin by simp
  finally have "filter (\<lambda>r. row_key r = (strftime (timestamp m), la, lo))
          (map cols (sort_key ?K (filter (\<lambda>r. ?c \<le> ?K r) ?W))) = [?s]"
    by (simp only: k)
  with upsert_records_single [OF s, of d] query_wall_clock [OF assms(1), of "put_row ?s d"]
  show ?thesis by simp
qed

theorem upsert_query_round_trip_witness:
  "wall_clock ex_now \<and> valid_dt (timestamp ex_row) \<and>
   instant ex_now \<le> instant (timestamp ex_row) + 172800 \<and>
   (\<exists>d' rows. upsert_records [ex_row] ex_db = (Inr 1, d') \<and>
      query_last_48h ex_now d' = Inr rows \<and>
      filter (\<lambda>r. row_key r = (''2025-06-01T12:00:00Z'', 52.5, 13.4)) rows = [ex_stored])"
proof -
  have v: "valid_dt (timestamp ex_row)" by (simp add: ex_defs eval_dt)
  have w: "instant ex_now \<le> instant (timestamp ex_row) + 172800"
    by (simp add: ex_defs ex_now_def eval_dt)
  have f: "strftime (timestamp ex_row) = ''2025-06-01T12:00:00Z''"
    by (simp add: ex_defs eval_dt)
  have c: "temperature_2m ex_row = PyFloat 21.5" "relative_humidity_2m ex_row = PyFloat 40"
    "latitude ex_row = PyFloat 52.5" "longitude ex_row = PyFloat 13.4"
    by (simp_all add: ex_defs)
  from upsert_query_round_trip [OF wall_clock_ex_now v w c, of ex_db]
  have "\<exists>d' rows. upsert_records [ex_row] ex_db = (Inr 1, d') \<and>
      query_last_48h ex_now d' = Inr rows \<and>
      filter (\<lambda>r. row_key r = (''2025-06-01T12:00:00Z'', 52.5, 13.4)) rows = [ex_stored]"
    unfolding f by (simp add: ex_stored_def)
  with wall_clock_ex_now v w show ?thesis by simp
qed

section \<open>The fetch and the report route\<close>

text \<open>
  Claim C3. When the upstream answer is a JSON response whose temperature array is
  shorter than its time array, \<open>fetch_open_meteo\<close> raises \<^verbatim>\<open>ValueError\<close> (from its
  own check when an array is empty, from the date parser, or from the length check of
  the \<^verbatim>\<open>DataFrame\<close> constructor), \<open>weather_report\<close> answers 500, and the database is
  the one before the request.
\<close>

theorem misaligned_response_rejected:
  assumes "Option.bind lat_arg to_float = Some lat" and "Option.bind lon_arg to_float = Some lon"
    and "upstream lat lon = Response code (Json (Some h))" and "\<not> (400 \<le> code \<and> code < 600)"
    and "length (get_or_empty (temperature_2m_key h)) < length (get_or_empty (time_key h))"
  shows "\<exists>msg. fetch_open_meteo parse (upstream lat lon) lat lon = Inl (ValueError msg) \<and>
           weather_report to_float parse upstream lat_arg lon_arg d =
             ((ExceptionMessage (ValueError msg), 500), d)"
proof -
  from fetch_misaligned [OF assms(4,5), of parse lat lon] obtain msg
    where "fetch_open_meteo parse (upstream lat lon) lat lon = Inl (ValueError msg)"
    unfolding assms(3) by blast
  then show ?thesis
    by (auto simp: weather_report_def report_body_def assms(1,2))
qed

theorem misaligned_response_rejected_witness:
  "Option.bind (Some ''52.5'') ex_to_float = Some (PyFloat 52.5) \<and>
   Option.bind (Some ''13.4'') ex_to_float = Some (PyFloat 13.4) \<and>
   \<not> (400 \<le> (200::nat) \<and> (200::nat) < 600) \<and>
   length (get_or_empty (temperature_2m_key (ex_hourly\<lparr>temperature_2m_key := Some [Some 22]\<rparr>)))
     < length (get_or_empty (time_key (ex_hourly\<lparr>temperature_2m_key := Some [Some 22]\<rparr>))) \<and>
   weather_report ex_to_float ex_parse
       (\<lambda>lat lon. Response 200 (Json (Some (ex_hourly\<lparr>temperature_2m_key := Some [Some 22]\<rparr>))))
       (Some ''52.5'') (Some ''13.4'') ex_db =
     ((ExceptionMessage (ValueError ''All arrays must be of the same length''), 500), ex_db)"
proof -
  let ?h = "ex_hourly\<lparr>temperature_2m_key := Some [Some 22]\<rparr>"
  let ?up = "\<lambda>lat lon :: pyval. Response 200 (Json (Some ?h))"
  have a: "Option.bind (Some ''52.5'') ex_to_float = Some (PyFloat 52.5)"
    and b: "Option.bind (Some ''13.4'') ex_to_float = Some (PyFloat 13.4)"
    by (simp_all add: ex_to_float_def)
  have c: "?up (PyFloat 52.5) (PyFloat 13.4) = Response 200 (Json (Some ?h))" by simp
  have s: "\<not> (400 \<le> (200::nat) \<and> (200::nat) < 600)" by simp
  have l: "length (get_or_empty (temperature_2m_key ?h)) < length (get_or_empty (time_key ?h))"
    by (simp add: ex_hourly_def get_or_empty_def)
  have f: "fetch_open_meteo ex_parse (?up (PyFloat 52.5) (PyFloat 13.4)) (PyFloat 52.5) (PyFloat 13.4)
      = Inl (ValueError ''All arrays must be of the same length'')"
    by (simp add: fetch_open_meteo_def ex_hourly_def get_or_empty_def ex_parse_def)
  from misaligned_response_rejected [OF a b c s l, of ex_parse ex_db]
  have "weather_report ex_to_float ex_parse ?up (Some ''52.5'') (Some ''13.4'') ex_db =
     ((ExceptionMessage (ValueError ''All arrays must be of the same length''), 500), ex_db)"
    unfolding f by simp
  with a b s l show ?thesis by simp
qed

text \<open>
  Claim C8. A frame that \<open>fetch_open_meteo\<close> returns is ascending by instant, has one
  row for every entry of the time array, and carries in every row the latitude and the
  longitude that the caller passed; the fetch reads no coordinate from the response.
\<close>

theorem fetch_normalized:
  assumes "fetch_open_meteo parse r lat lon = Inr df"
  shows "sorted (map (\<lambda>row. instant (timestamp row)) df) \<and>
         (\<forall>row\<in>set df. latitude row = lat \<and> longitude row = lon) \<and>
         (\<exists>code h. r = Response code (Json (Some h)) \<and>
            length df = length (get_or_empty (time_key h)))"
proof -
  from assms obtain code h where r: "r = Response code (Json (Some h))"
    by (auto simp: fetch_open_meteo_def get_or_empty_def Let_def
        split: http_outcome.splits body.splits if_splits option.splits)
  let ?times = "get_or_empty (time_key h)"
  let ?temps = "get_or_empty (temperature_2m_key h)"
  let ?hums = "get_or_empty (relative_humidity_2m_key h)"
  from assms r obtain ts where ts: "to_datetime parse ?times = Inr ts"
    and len: "length ts = length ?temps" "length ts = length ?hums"
    and la: "py_float lat = Inr lat" and lo: "py_float lon = Inr lon"
    and df: "df = map (\<lambda>(t, temp, hum). \<lparr>timestamp = t, temperature_2m = temp,
                 relative_humidity_2m = hum, latitude = lat, longitude = lon\<rparr>)
               (sort_key (\<lambda>(t, temp, hum). instant t)
                 (zip ts (zip (frame_column ?temps) (frame_column ?hums))))"
    by (auto simp: fetch_open_meteo_def Let_def py_float_Inr split: if_splits sum.splits)
  have "sorted (map (\<lambda>row. instant (timestamp row)) df)"
    unfolding df map_instant_rows by (rule sorted_sort_key)
  moreover have "\<forall>row\<in>set df. latitude row = lat \<and> longitude row = lon"
    unfolding df by auto
  moreover have "length df = length ?times"
    unfolding df using len to_datetime_length [OF ts] by (simp add: frame_column_def)
  ultimately show ?thesis using r by simp
qed

theorem fetch_normalized_witness:
  "fetch_open_meteo ex_parse (Response 200 (Json (Some ex_hourly))) (PyFloat 52.5) (PyFloat 13.4) =
     Inr [ex_row, ex_row_again\<lparr>timestamp := ex_noon\<lparr>hour := 13\<rparr>\<rparr>] \<and>
   sorted (map (\<lambda>row. instant (timestamp row)) [ex_row, ex_row_again\<lparr>timestamp := ex_noon\<lparr>hour := 13\<rparr>\<rparr>])"
proof -
  have i: "instant ex_noon < instant (ex_noon\<lparr>hour := 13\<rparr>)"
    by (simp add: ex_noon_def eval_dt)
  have f: "fetch_open_meteo ex_parse (Response 200 (Json (Some ex_hourly))) (PyFloat 52.5) (PyFloat 13.4) =
     Inr [ex_row, ex_row_again\<lparr>timestamp := ex_noon\<lparr>hour := 13\<rparr>\<rparr>]"
    using i
    by (simp add: fetch_open_meteo_def ex_hourly_def get_or_empty_def ex_parse_def frame_column_def
        ex_row_def ex_row_again_def)
  from fetch_normalized [OF f] f show ?thesis by simp
qed

text \<open>
  Claim C4, as stated, fails: a timeout is not answered with 502.
  \<^verbatim>\<open>requests.get\<close> raises \<^verbatim>\<open>Timeout\<close>, which is not an \<^verbatim>\<open>HTTPError\<close>, so the handler
  for \<^verbatim>\<open>Exception\<close> answers 500.
\<close>

theorem upstream_failure_counterexample:
  "fetch_open_meteo ex_parse TimedOut (PyFloat 52.5) (PyFloat 13.4) = Inl Timeout \<and>
   weather_report ex_to_float ex_parse (\<lambda>lat lon. TimedOut) (Some ''52.5'') (Some ''13.4'') ex_db =
     ((ExceptionMessage Timeout, 500), ex_db)"
  by (simp add: fetch_open_meteo_def weather_report_def report_body_def ex_to_float_def)

text \<open>
  Claim C4, amended. With numeric coordinates in the request: an upstream response with
  a status from 400 to 599 is raised as \<^verbatim>\<open>HTTPError\<close> and answered with 502, and 502
  is answered in no other case; a timeout and a failed connection are raised as
  \<^verbatim>\<open>Timeout\<close> and \<^verbatim>\<open>ConnectionError\<close> and answered with 500, as is the
  \<^verbatim>\<open>ValueError\<close> of a malformed payload. In each of these cases the database is the one
  before the request.
\<close>

theorem upstream_failure_status:
  assumes "Option.bind lat_arg to_float = Some lat" and "Option.bind lon_arg to_float = Some lon"
  shows "((\<exists>b. upstream lat lon = Response code b) \<and> 400 \<le> code \<and> code < 600 \<longrightarrow>
            fetch_open_meteo parse (upstream lat lon) lat lon = Inl (HTTPError code) \<and>
            weather_report to_float parse upstream lat_arg lon_arg d =
              ((HttpErrorMessage (HTTPError code), 502), d)) \<and>
         (upstream lat lon = TimedOut \<longrightarrow>
            fetch_open_meteo parse (upstream lat lon) lat lon = Inl Timeout \<and>
            weather_report to_float parse upstream lat_arg lon_arg d =
              ((ExceptionMessage Timeout, 500), d)) \<and>
         (upstream lat lon = Unreachable \<longrightarrow>
            fetch_open_meteo parse (upstream lat lon) lat lon = Inl ConnectionError \<and>
            weather_report to_float parse upstream lat_arg lon_arg d =
              ((ExceptionMessage ConnectionError, 500), d)) \<and>
         (fetch_open_meteo parse (upstream lat lon) lat lon = Inl (ValueError msg) \<longrightarrow>
            weather_report to_float parse upstream lat_arg lon_arg d =
              ((ExceptionMessage (ValueError msg), 500), d)) \<and>
         (snd (fst (weather_report to_float parse upstream lat_arg lon_arg d)) = 502 \<longrightarrow>
            (\<exists>c b. upstream lat lon = Response c b \<and> 400 \<le> c \<and> c < 600))"
proof (intro conjI impI)
  assume h: "(\<exists>b. upstream lat lon = Response code b) \<and> 400 \<le> code \<and> code < 600"
  then have f: "fetch_open_meteo parse (upstream lat lon) lat lon = Inl (HTTPError code)"
    by (simp add: fetch_HTTPError)
  then show "fetch_open_meteo parse (upstream lat lon) lat lon = Inl (HTTPError code)" .
  from f show "weather_report to_float parse upstream lat_arg lon_arg d =
              ((HttpErrorMessage (HTTPError code), 502), d)"
    by (simp add: weather_report_def report_body_def assms)
next
  assume h: "upstream lat lon = TimedOut"
  then show f: "fetch_open_meteo parse (upstream lat lon) lat lon = Inl Timeout"
    by (simp add: fetch_open_meteo_def)
  then show "weather_report to_float parse upstream lat_arg lon_arg d =
              ((ExceptionMessage Timeout, 500), d)"
    by (simp add: weather_report_def report_body_def assms)
next
  assume h: "upstream lat lon = Unreachable"
  then show f: "fetch_open_meteo parse (upstream lat lon) lat lon = Inl ConnectionError"
    by (simp add: fetch_open_meteo_def)
  then show "weather_report to_float parse upstream lat_arg lon_arg d =
              ((ExceptionMessage ConnectionError, 500), d)"
    by (simp add: weather_report_def report_body_def assms)
next
  assume "fetch_open_meteo parse (upstream lat lon) lat lon = Inl (ValueError msg)"
  then show "weather_report to_float parse upstream lat_arg lon_arg d =
              ((ExceptionMessage (ValueError msg), 500), d)"
    by (simp add: weather_report_def report_body_def assms)
next
  assume s: "snd (fst (weather_report to_float parse upstream lat_arg lon_arg d)) = 502"
  obtain res d' where b: "report_body parse (upstream lat lon) lat lon d = (res, d')"
    by (cases "report_body parse (upstream lat lon) lat lon d")
  with s obtain c where "res = Inl (HTTPError c)"
    by (auto simp: weather_report_def assms split: sum.splits exn.splits)
  with b report_body_HTTPError [of parse "upstream lat lon" lat lon d c d']
  show "\<exists>c b. upstream lat lon = Response c b \<and> 400 \<le> c \<and> c < 600" by auto
qed

theorem upstream_failure_status_witness:
  "Option.bind (Some ''52.5'') ex_to_float = Some (PyFloat 52.5) \<and>
   Option.bind (Some ''13.4'') ex_to_float = Some (PyFloat 13.4) \<and>
   weather_report ex_to_float ex_parse (\<lambda>lat lon. Response 503 NotJson)
       (Some ''52.5'') (Some ''13.4'') ex_db =
     ((HttpErrorMessage (HTTPError 503), 502), ex_db) \<and>
   weather_report ex_to_float ex_parse (\<lambda>lat lon. Unreachable)
       (Some ''52.5'') (Some ''13.4'') ex_db =
     ((ExceptionMessage ConnectionError, 500), ex_db)"
proof -
  have a: "Option.bind (Some ''52.5'') ex_to_float = Some (PyFloat 52.5)"
    and b: "Option.bind (Some ''13.4'') ex_to_float = Some (PyFloat 13.4)"
    by (simp_all add: ex_to_float_def)
  from upstream_failure_status [OF a b, of "\<lambda>lat lon. Response 503 NotJson" 503 ex_parse ex_db]
  have 1: "weather_report ex_to_float ex_parse (\<lambda>lat lon. Response 503 NotJson)
       (Some ''52.5'') (Some ''13.4'') ex_db = ((HttpErrorMessage (HTTPError 503), 502), ex_db)"
    by simp
  from upstream_failure_status [OF a b, of "\<lambda>lat lon. Unreachable" 0 ex_parse ex_db]
  have 2: "weather_report ex_to_float ex_parse (\<lambda>lat lon. Unreachable)
       (Some ''52.5'') (Some ''13.4'') ex_db = ((ExceptionMessage ConnectionError, 500), ex_db)"
    by simp
  from a b 1 2 show ?thesis by simp
qed

end
